theory Spec2Isabelle
  imports Complex_Main
begin

section \<open>Exceptions\<close>

text \<open>
  The Python exceptions that occur in the two modules. Every value of this type stands
  for an instance of a subclass of Python's \<open>Exception\<close>; \<open>ClientError\<close> is any
  failure of an upstream network call. A function that can raise returns the exception
  next to the state it had reached, since Python keeps the mutations made before a raise.
\<close>

datatype exn =
    IndexError | NoSchedule | KeyError | ValueError | TypeError
  | AttributeError | UnboundLocalError | ClientError

section \<open>hockey/menu.py\<close>

subsection \<open>Data\<close>

text \<open>
  The displayed message of a menu: its text content and its embed. The host's
  \<open>message.edit\<close>, \<open>message.delete\<close> and \<open>channel.send\<close> are primitives of the
  host runtime; they are taken to complete, and their effect is recorded in the state.
\<close>

record display =
  content :: "string option"
  embed :: "string option"

datatype log_entry =
    Debug string exn
  | Info string
  | Error string
  | Exception string

text \<open>
  A page source as the menus see it: \<open>get_page\<close> with the two keyword arguments of the
  schedule source (a plain call passes neither, so both are \<open>False\<close>),
  \<open>get_max_pages\<close> (\<open>None\<close> when no page count is known), and the framework's
  \<open>_get_kwargs_from_page\<close>, which formats a page into the arguments of \<open>message.edit\<close>.
\<close>

record 'p page_source =
  get_page :: "int \<Rightarrow> bool \<Rightarrow> bool \<Rightarrow> exn + 'p"
  get_max_pages :: "int option"
  get_kwargs_from_page :: "'p \<Rightarrow> exn + display"

record menu =
  current_page :: int
  message :: display
  running :: bool
  deleted :: bool
  menu_log :: "log_entry list"

record button =
  lock :: bool
  action :: "menu \<Rightarrow> exn option \<times> menu"

datatype control = FirstPage | PreviousPage | NextPage | LastPage | StopPages | ChooseDate

subsection \<open>Showing a page\<close>

text \<open>\<open>GamesMenu.show_page\<close> (menu.py, lines 70 to 82).\<close>

definition no_schedule_text :: string where
  "no_schedule_text = ''No Schedule could be found for that date and team.''"

definition GamesMenu_show_page ::
  "'p page_source \<Rightarrow> int \<Rightarrow> bool \<Rightarrow> bool \<Rightarrow> menu \<Rightarrow> exn option \<times> menu" where
  "GamesMenu_show_page src page_number skip_next skip_prev m =
     (case get_page src page_number skip_next skip_prev of
        Inl e \<Rightarrow>
          (if e = NoSchedule
           then (None, m\<lparr>message := \<lparr>content = Some no_schedule_text, embed = None\<rparr>\<rparr>)
           else (Some e, m))
      | Inr page \<Rightarrow>
          (let m1 = m\<lparr>current_page := page_number\<rparr> in
           case get_kwargs_from_page src page of
             Inl e \<Rightarrow> (Some e, m1)
           | Inr kwargs \<Rightarrow> (None, m1\<lparr>message := kwargs\<rparr>)))"

text \<open>
  \<open>BaseMenu\<close> does not override \<open>show_page\<close>: it runs the one of the framework's
  \<open>MenuPages\<close>, which is the body above without the \<open>NoSchedule\<close> handler.
\<close>

definition MenuPages_show_page ::
  "'p page_source \<Rightarrow> int \<Rightarrow> menu \<Rightarrow> exn option \<times> menu" where
  "MenuPages_show_page src page_number m =
     (case get_page src page_number False False of
        Inl e \<Rightarrow> (Some e, m)
      | Inr page \<Rightarrow>
          (let m1 = m\<lparr>current_page := page_number\<rparr> in
           case get_kwargs_from_page src page of
             Inl e \<Rightarrow> (Some e, m1)
           | Inr kwargs \<Rightarrow> (None, m1\<lparr>message := kwargs\<rparr>)))"

text \<open>The handler \<open>except IndexError: pass\<close> around a call.\<close>

definition except_IndexError :: "exn option \<times> menu \<Rightarrow> exn option \<times> menu" where
  "except_IndexError r =
     (case r of
        (None, m) \<Rightarrow> (None, m)
      | (Some e, m) \<Rightarrow> (if e = IndexError then (None, m) else (Some e, m)))"

text \<open>\<open>GamesMenu.show_checked_page\<close> (lines 105 to 110).\<close>

definition GamesMenu_show_checked_page ::
  "'p page_source \<Rightarrow> int \<Rightarrow> menu \<Rightarrow> exn option \<times> menu" where
  "GamesMenu_show_checked_page src page_number m =
     except_IndexError (GamesMenu_show_page src page_number False False m)"

text \<open>\<open>BaseMenu.show_checked_page\<close> (lines 384 to 398).\<close>

definition BaseMenu_show_checked_page ::
  "'p page_source \<Rightarrow> int \<Rightarrow> menu \<Rightarrow> exn option \<times> menu" where
  "BaseMenu_show_checked_page src page_number m =
     (case get_max_pages src of
        None \<Rightarrow> except_IndexError (MenuPages_show_page src page_number m)
      | Some max_pages \<Rightarrow>
          (if page_number \<ge> max_pages then
             except_IndexError (MenuPages_show_page src 0 m)
           else if page_number < 0 then
             except_IndexError (MenuPages_show_page src (max_pages - 1) m)
           else if max_pages > page_number \<and> page_number \<ge> 0 then
             except_IndexError (MenuPages_show_page src page_number m)
           else (None, m)))"

subsection \<open>Controls\<close>

definition BaseMenu_go_to_previous_page :: "'p page_source \<Rightarrow> menu \<Rightarrow> exn option \<times> menu" where
  "BaseMenu_go_to_previous_page src m = BaseMenu_show_checked_page src (current_page m - 1) m"

definition BaseMenu_go_to_next_page :: "'p page_source \<Rightarrow> menu \<Rightarrow> exn option \<times> menu" where
  "BaseMenu_go_to_next_page src m = BaseMenu_show_checked_page src (current_page m + 1) m"

definition BaseMenu_go_to_first_page :: "'p page_source \<Rightarrow> menu \<Rightarrow> exn option \<times> menu" where
  "BaseMenu_go_to_first_page src m = MenuPages_show_page src 0 m"

text \<open>\<open>get_max_pages() - 1\<close> is a \<open>TypeError\<close> when the count is \<open>None\<close>.\<close>

definition BaseMenu_go_to_last_page :: "'p page_source \<Rightarrow> menu \<Rightarrow> exn option \<times> menu" where
  "BaseMenu_go_to_last_page src m =
     (case get_max_pages src of
        None \<Rightarrow> (Some TypeError, m)
      | Some max_pages \<Rightarrow> MenuPages_show_page src (max_pages - 1) m)"

definition stop_pages :: "menu \<Rightarrow> exn option \<times> menu" where
  "stop_pages m = (None, m\<lparr>running := False, deleted := True\<rparr>)"

definition GamesMenu_go_to_previous_page :: "'p page_source \<Rightarrow> menu \<Rightarrow> exn option \<times> menu" where
  "GamesMenu_go_to_previous_page src m = GamesMenu_show_checked_page src (current_page m - 1) m"

definition GamesMenu_go_to_next_page :: "'p page_source \<Rightarrow> menu \<Rightarrow> exn option \<times> menu" where
  "GamesMenu_go_to_next_page src m = GamesMenu_show_checked_page src (current_page m + 1) m"

definition GamesMenu_go_to_first_page :: "'p page_source \<Rightarrow> menu \<Rightarrow> exn option \<times> menu" where
  "GamesMenu_go_to_first_page src m = GamesMenu_show_page src 0 False True m"

definition GamesMenu_go_to_last_page :: "'p page_source \<Rightarrow> menu \<Rightarrow> exn option \<times> menu" where
  "GamesMenu_go_to_last_page src m = GamesMenu_show_page src 0 True False m"

subsection \<open>Which controls a session shows\<close>

text \<open>\<open>_skip_single_arrows\<close> and \<open>_skip_double_triangle_buttons\<close> (lines 120 to 124, 408 to 418).\<close>

definition BaseMenu_skip_single_arrows :: "'p page_source \<Rightarrow> bool" where
  "BaseMenu_skip_single_arrows src =
     (case get_max_pages src of None \<Rightarrow> True | Some max_pages \<Rightarrow> max_pages = 1)"

definition BaseMenu_skip_double_triangle_buttons :: "'p page_source \<Rightarrow> bool" where
  "BaseMenu_skip_double_triangle_buttons src =
     (case get_max_pages src of None \<Rightarrow> True | Some max_pages \<Rightarrow> max_pages \<le> 2)"

definition GamesMenu_skip_single_arrows :: "'p page_source \<Rightarrow> bool" where
  "GamesMenu_skip_single_arrows src =
     (case get_max_pages src of None \<Rightarrow> True | Some max_pages \<Rightarrow> max_pages = 1)"

text \<open>
  The \<open>@menus.button\<close> decorators of each class, in the order of the class body, with
  the \<open>skip_if\<close> argument each one passes (\<open>None\<close> when it passes none). No decorator
  of \<open>GamesMenu\<close> passes \<open>skip_if\<close>.
\<close>

definition BaseMenu_buttons :: "(control \<times> ('p page_source \<Rightarrow> bool) option) list" where
  "BaseMenu_buttons =
     [(PreviousPage, Some BaseMenu_skip_single_arrows),
      (NextPage, Some BaseMenu_skip_single_arrows),
      (FirstPage, Some BaseMenu_skip_double_triangle_buttons),
      (LastPage, Some BaseMenu_skip_double_triangle_buttons),
      (StopPages, None)]"

definition GamesMenu_buttons :: "(control \<times> ('p page_source \<Rightarrow> bool) option) list" where
  "GamesMenu_buttons =
     [(PreviousPage, None),
      (NextPage, None),
      (FirstPage, None),
      (LastPage, None),
      (StopPages, None),
      (ChooseDate, None)]"

text \<open>
  The framework shows a control unless its \<open>skip_if\<close> holds of the session when the
  controls are collected; a control without \<open>skip_if\<close> is always shown.
\<close>

definition shown :: "'p page_source \<Rightarrow> ('p page_source \<Rightarrow> bool) option \<Rightarrow> bool" where
  "shown src skip_if = (case skip_if of None \<Rightarrow> True | Some skip \<Rightarrow> \<not> skip src)"

definition visible_controls ::
  "(control \<times> ('p page_source \<Rightarrow> bool) option) list \<Rightarrow> 'p page_source \<Rightarrow> control list" where
  "visible_controls buttons src = map fst (filter (\<lambda>b. shown src (snd b)) buttons)"

subsection \<open>Dispatching a control activation\<close>

text \<open>
  \<open>update\<close> (lines 46 to 68 and 360 to 382; the two bodies are the same). The lookup
  \<open>self.buttons[payload.emoji]\<close> stands before the \<open>try\<close>. One activation is handled
  at a time here, so the session lock is free when it is taken.
\<close>

definition ignored :: "exn option \<times> menu \<Rightarrow> exn option \<times> menu" where
  "ignored r =
     (case r of
        (None, m) \<Rightarrow> (None, m)
      | (Some exc, m) \<Rightarrow>
          (None, m\<lparr>menu_log := menu_log m @ [Debug ''Ignored exception on reaction event'' exc]\<rparr>))"

definition BaseMenu_update :: "(string \<Rightarrow> button option) \<Rightarrow> string \<Rightarrow> menu \<Rightarrow> exn option \<times> menu" where
  "BaseMenu_update buttons emoji m =
     (case buttons emoji of
        None \<Rightarrow> (Some KeyError, m)
      | Some button \<Rightarrow>
          (if \<not> running m then (None, m)
           else ignored
             (if lock button then (if running m then action button m else (None, m))
              else action button m)))"

definition GamesMenu_update :: "(string \<Rightarrow> button option) \<Rightarrow> string \<Rightarrow> menu \<Rightarrow> exn option \<times> menu" where
  "GamesMenu_update buttons emoji m =
     (case buttons emoji of
        None \<Rightarrow> (Some KeyError, m)
      | Some button \<Rightarrow>
          (if \<not> running m then (None, m)
           else ignored
             (if lock button then (if running m then action button m else (None, m))
              else action button m)))"

section \<open>twitch/twitch_api.py: the API client\<close>

subsection \<open>Data\<close>

datatype json = JString string | JInt int | JList "json list" | JDict "(string \<times> json) list"

text \<open>A dictionary with text values (the API tokens, the cached access token, a header).\<close>

type_synonym str_dict = "(string \<times> string) list"

text \<open>
  A rate-limit header of a response, as \<open>resp.headers.get\<close> and the test
  \<open>if remaining:\<close> see it: absent (or empty), the text of an integer, or a text
  that \<open>int\<close> rejects.
\<close>

datatype header = Absent | Numeric int | Malformed

record response =
  status :: int
  ratelimit_remaining :: header
  ratelimit_reset :: header
  body :: "exn + json"

text \<open>
  What the network answers during one pass through \<open>get_response\<close>: the API tokens
  of the host, the token endpoint's answer to the POST, the status of the validation
  request, and the answer to the GET itself.
\<close>

record attempt =
  api_tokens :: str_dict
  token_post :: "exn + str_dict"
  validate_status :: "exn + int"
  reply :: "exn + response"

text \<open>
  The client's state: the cached access token of the configuration, the two rate-limit
  fields, the wall clock (seconds since the epoch, as \<open>time.time()\<close> reads it, so that
  \<open>int\<close> of it is its floor), and the GET requests issued so far, each with the time it
  was issued at. Only \<open>asyncio.sleep\<close> moves the clock; the wait's margin \<open>0.1\<close> is
  the rational 1/10.
\<close>

record api_state =
  access_token :: str_dict
  rate_limit_remaining :: int
  rate_limit_resets :: "int set"
  clock :: rat
  issued :: "(rat \<times> string \<times> str_dict) list"
  api_log :: "log_entry list"

datatype 'a outcome = Returned 'a | Raised exn | Pending

definition BASE_URL :: string where
  "BASE_URL = ''https://api.twitch.tv/helix''"

subsection \<open>Credentials and header\<close>

text \<open>\<open>oauth_check\<close> (lines 75 to 118).\<close>

function oauth_check :: "attempt \<Rightarrow> api_state \<Rightarrow> exn option \<times> api_state" where
  "oauth_check net st =
     (let keys = api_tokens net in
      if map_of keys ''client_secret'' = None then (None, st)
      else
        (case map_of keys ''client_id'' of
           None \<Rightarrow> (Some KeyError, st)
         | Some client_id \<Rightarrow>
             (if access_token st = [] then
                (case token_post net of
                   Inl e \<Rightarrow> (Some e, st)
                 | Inr tok \<Rightarrow> (None, st\<lparr>access_token := tok\<rparr>))
              else if map_of (access_token st) ''access_token'' = None then
                oauth_check net (st\<lparr>access_token := []\<rparr>)
              else
                (case validate_status net of
                   Inl e \<Rightarrow> (Some e, st)
                 | Inr s \<Rightarrow>
                     (if s = 200 then (None, st)
                      else oauth_check net (st\<lparr>access_token := []\<rparr>))))))"
  by pat_completeness auto
termination
  by (relation "measure (\<lambda>(net, st). if access_token st = [] then 0 else 1)") auto

declare oauth_check.simps [simp del]

text \<open>\<open>get_header\<close> (lines 50 to 57).\<close>

definition get_header :: "attempt \<Rightarrow> api_state \<Rightarrow> exn + str_dict" where
  "get_header net st =
     (case map_of (api_tokens net) ''client_id'' of
        None \<Rightarrow> Inl KeyError
      | Some client_id \<Rightarrow>
          (if access_token st \<noteq> [] then
             (case map_of (access_token st) ''access_token'' of
                None \<Rightarrow> Inl KeyError
              | Some tok \<Rightarrow>
                  Inr [(''Client-ID'', client_id), (''Authorization'', ''Bearer '' @ tok)])
           else Inr [(''Client-ID'', client_id)]))"

subsection \<open>Rate limit\<close>

text \<open>
  \<open>wait_for_rate_limit_reset\<close> (lines 59 to 73). \<open>list(self.rate_limit_resets)[0]\<close>
  is the first element of the set in Python's iteration order, which the language leaves
  to the implementation: the function \<open>first\<close> stands for it.
\<close>

definition wait_for_rate_limit_reset :: "(int set \<Rightarrow> int) \<Rightarrow> api_state \<Rightarrow> api_state" where
  "wait_for_rate_limit_reset first st =
     (if rate_limit_remaining st = 0 then
        (let current_time = \<lfloor>clock st\<rfloor>;
             resets = {x \<in> rate_limit_resets st. x > current_time};
             st1 = st\<lparr>rate_limit_resets := resets\<rparr>
         in if resets \<noteq> {} then
              (let reset_time = first resets;
                   wait_time = of_int (reset_time - current_time) + 1 / 10
               in st1\<lparr>clock := clock st1 + wait_time\<rparr>)
            else st1)
      else st)"

subsection \<open>Fetching\<close>

text \<open>
  \<open>get_response\<close> (lines 120 to 140). Each pass consumes the network's behaviour for
  that pass; when the list ends before an answer other than 429 has come, the call is
  still pending.
\<close>

definition read_headers :: "response \<Rightarrow> api_state \<Rightarrow> exn option \<times> api_state" where
  "read_headers resp st =
     (case ratelimit_remaining resp of
        Malformed \<Rightarrow> (Some ValueError, st)
      | remaining \<Rightarrow>
          (let st1 = (case remaining of
                        Numeric n \<Rightarrow> st\<lparr>rate_limit_remaining := n\<rparr>
                      | _ \<Rightarrow> st)
           in case ratelimit_reset resp of
                Malformed \<Rightarrow> (Some ValueError, st1)
              | Numeric r \<Rightarrow> (None, st1\<lparr>rate_limit_resets := insert r (rate_limit_resets st1)\<rparr>)
              | Absent \<Rightarrow> (None, st1)))"

fun get_response ::
  "(int set \<Rightarrow> int) \<Rightarrow> string \<Rightarrow> attempt list \<Rightarrow> api_state \<Rightarrow> json outcome \<times> api_state" where
  "get_response first url [] st = (Pending, st)"
| "get_response first url (net # later) st =
     (case oauth_check net st of
        (Some e, st1) \<Rightarrow> (Raised e, st1)
      | (None, st1) \<Rightarrow>
          (case get_header net st1 of
             Inl e \<Rightarrow> (Raised e, st1)
           | Inr header \<Rightarrow>
               (let st2 = wait_for_rate_limit_reset first st1;
                    st3 = st2\<lparr>issued := issued st2 @ [(clock st2, url, header)]\<rparr>
                in case reply net of
                     Inl e \<Rightarrow> (Raised e, st3)
                   | Inr resp \<Rightarrow>
                       (case read_headers resp st3 of
                          (Some e, st4) \<Rightarrow> (Raised e, st4)
                        | (None, st4) \<Rightarrow>
                            (if status resp = 429 then
                               get_response first url later
                                 (st4\<lparr>api_log := api_log st4 @ [Info ''Trying again'']\<rparr>)
                             else
                               (case body resp of
                                  Inl e \<Rightarrow> (Raised e, st4)
                                | Inr data \<Rightarrow> (Returned data, st4)))))))"

subsection \<open>Clips\<close>

text \<open>
  \<open>get_new_clips\<close> (lines 201 to 211). A \<open>datetime\<close> is given by its
  \<open>isoformat()\<close> text; \<open>utcnow\<close> is the reading of \<open>datetime.utcnow()\<close>.
\<close>

type_synonym datetime = string

definition get_new_clips_url :: "string \<Rightarrow> datetime option \<Rightarrow> datetime \<Rightarrow> string" where
  "get_new_clips_url user_id started_at utcnow =
     (let url = BASE_URL @ ''/clips?broadcaster_id='' @ user_id in
      case started_at of
        Some start \<Rightarrow> (url @ ''&started_at='' @ start @ ''Z'') @ ''&ended_at='' @ utcnow @ ''Z''
      | None \<Rightarrow> url)"

definition subscript :: "json \<Rightarrow> string \<Rightarrow> exn + json" where
  "subscript data key =
     (case data of
        JDict items \<Rightarrow> (case map_of items key of None \<Rightarrow> Inl KeyError | Some v \<Rightarrow> Inr v)
      | _ \<Rightarrow> Inl TypeError)"

definition get_new_clips ::
  "(int set \<Rightarrow> int) \<Rightarrow> string \<Rightarrow> datetime option \<Rightarrow> datetime \<Rightarrow> attempt list \<Rightarrow> api_state
     \<Rightarrow> json outcome \<times> api_state" where
  "get_new_clips first user_id started_at utcnow nets st =
     (case get_response first (get_new_clips_url user_id started_at utcnow) nets st of
        (Returned data, st1) \<Rightarrow>
          (case subscript data ''data'' of
             Inl e \<Rightarrow> (Raised e, st1)
           | Inr clips \<Rightarrow> (Returned clips, st1))
      | r \<Rightarrow> r)"

text \<open>Whether a text occurs in another, to look for a query parameter in a URL.\<close>

fun occurs_in :: "string \<Rightarrow> string \<Rightarrow> bool" where
  "occurs_in sub [] = (sub = [])"
| "occurs_in sub (c # cs) = (take (length sub) (c # cs) = sub \<or> occurs_in sub cs)"

section \<open>twitch/twitch_api.py: the polling loop\<close>

subsection \<open>Data\<close>

record profile =
  p_id :: string
  login :: string
  display_name :: string

record follower =
  from_id :: string

text \<open>An entry of the configuration's \<open>twitch_accounts\<close> list (a Python dict).\<close>

record account =
  acc_id :: string
  followers :: "string list"
  channels :: "int list"

record clip =
  clip_id :: string
  clip_url :: string

text \<open>A value of the configuration's \<open>twitch_clips\<close> mapping.\<close>

record clip_data =
  cd_display_name :: string
  clips :: "string list"
  cd_channels :: "int list"

text \<open>The bot's permissions in a channel.\<close>

record channel =
  embed_links :: bool
  send_messages :: bool

record follow_embed =
  em_author :: profile
  em_account :: profile
  em_total_followers :: int

text \<open>A message sent to the channel of the given id.\<close>

datatype sent = SentEmbed int follow_embed | SentText int string

text \<open>
  What the world answers during one cycle of the loop: whether this instance is still
  the registered one, the outcome of each upstream call (\<open>get_response\<close> and the parsing
  of its answer: a value or an exception), and the host's channel lookup.
\<close>

record upstream =
  registered :: bool
  profile_from_id :: "string \<Rightarrow> exn + profile"
  new_followers :: "string \<Rightarrow> exn + follower list \<times> int"
  new_clips :: "string \<Rightarrow> exn + clip list"
  get_channel :: "int \<Rightarrow> channel option"

record bot_state =
  twitch_accounts :: "account list"
  twitch_clips :: "(string \<times> clip_data) list"
  sent :: "sent list"
  bot_log :: "log_entry list"

subsection \<open>Followers\<close>

definition make_follow_embed :: "profile \<Rightarrow> profile \<Rightarrow> int \<Rightarrow> follow_embed" where
  "make_follow_embed account profile total_n =
     \<lparr>em_author = profile, em_account = account, em_total_followers = total_n\<rparr>"

text \<open>
  The loop over \<open>account["channels"]\<close> (lines 258 to 269). In the branch without the
  embed permission, the text is built from \<open>account.display_name\<close>, and \<open>account\<close>
  is a dict: an \<open>AttributeError\<close>, before anything is sent.
\<close>

fun send_follow ::
  "upstream \<Rightarrow> follow_embed \<Rightarrow> int list \<Rightarrow> bot_state \<Rightarrow> exn option \<times> bot_state" where
  "send_follow up em [] st = (None, st)"
| "send_follow up em (channel_id # rest) st =
     (case get_channel up channel_id of
        None \<Rightarrow> send_follow up em rest st
      | Some channel \<Rightarrow>
          (if embed_links channel then
             send_follow up em rest (st\<lparr>sent := sent st @ [SentEmbed channel_id em]\<rparr>)
           else (Some AttributeError, st)))"

text \<open>
  The loop over \<open>reversed(followers)\<close> (lines 245 to 273). The local variable
  \<open>profile\<close> is unbound until a lookup has succeeded, and keeps its last value when a
  later lookup fails: the handler logs and falls through.
\<close>

fun follow_loop ::
  "upstream \<Rightarrow> profile \<Rightarrow> int \<Rightarrow> follower list \<Rightarrow> profile option \<Rightarrow> account \<Rightarrow> bot_state
     \<Rightarrow> exn option \<times> account \<times> bot_state" where
  "follow_loop up followed total_n [] profile account st = (None, account, st)"
| "follow_loop up followed total_n (follow # rest) profile account st =
     (if from_id follow \<notin> set (followers account) then
        (let (profile1, st1) =
               (case profile_from_id up (from_id follow) of
                  Inr p \<Rightarrow> (Some p, st)
                | Inl e \<Rightarrow>
                    (profile,
                     st\<lparr>bot_log := bot_log st @
                        [Error (''Error getting twitch profile '' @ from_id follow)]\<rparr>))
         in case profile1 of
              None \<Rightarrow> (Some UnboundLocalError, account, st1)
            | Some p \<Rightarrow>
                (let st2 = st1\<lparr>bot_log := bot_log st1 @ [Info (login p @ '' Followed!'')]\<rparr>;
                     em = make_follow_embed followed p total_n
                 in case send_follow up em (channels account) st2 of
                      (Some e, st3) \<Rightarrow> (Some e, account, st3)
                    | (None, st3) \<Rightarrow>
                        (if account \<in> set (twitch_accounts st3) then
                           (let account1 =
                                  account\<lparr>followers := followers account @ [from_id follow]\<rparr>;
                                st4 = st3\<lparr>twitch_accounts :=
                                        remove1 account (twitch_accounts st3) @ [account1]\<rparr>
                            in follow_loop up followed total_n rest (Some p) account1 st4)
                         else (Some ValueError, account, st3))))
      else follow_loop up followed total_n rest profile account st)"

text \<open>\<open>check_followers\<close> (lines 242 to 273).\<close>

definition check_followers ::
  "upstream \<Rightarrow> account \<Rightarrow> bot_state \<Rightarrow> exn option \<times> account \<times> bot_state" where
  "check_followers up account st =
     (case profile_from_id up (acc_id account) of
        Inl e \<Rightarrow> (Some e, account, st)
      | Inr followed \<Rightarrow>
          (case new_followers up (acc_id account) of
             Inl e \<Rightarrow> (Some e, account, st)
           | Inr (follows, total_n) \<Rightarrow>
               follow_loop up followed total_n (rev follows) None account st))"

subsection \<open>Clips\<close>

text \<open>\<open>send_clips_update\<close> (lines 275 to 282).\<close>

definition send_clips_update :: "upstream \<Rightarrow> clip \<Rightarrow> clip_data \<Rightarrow> bot_state \<Rightarrow> bot_state" where
  "send_clips_update up clip cd st =
     (let msg = cd_display_name cd @ '' has a new clip! '' @ clip_url clip;
          tasks = map (\<lambda>c. SentText c msg)
                    (filter (\<lambda>c. case get_channel up c of
                                    None \<Rightarrow> False
                                  | Some channel \<Rightarrow> send_messages channel)
                       (cd_channels cd))
      in st\<lparr>sent := sent st @ tasks\<rparr>)"

text \<open>The loop over the clips of one subject (lines 295 to 299).\<close>

fun clip_loop ::
  "upstream \<Rightarrow> string \<Rightarrow> clip_data \<Rightarrow> clip list \<Rightarrow> bot_state \<Rightarrow> exn option \<times> bot_state" where
  "clip_loop up user_id cd [] st = (None, st)"
| "clip_loop up user_id cd (c # rest) st =
     (if clip_id c \<notin> set (clips cd) then
        (let st1 = send_clips_update up c cd st in
         case map_of (twitch_clips st1) user_id of
           None \<Rightarrow> (Some KeyError, st1)
         | Some saved \<Rightarrow>
             clip_loop up user_id cd rest
               (st1\<lparr>twitch_clips :=
                  map (\<lambda>(k, v). if k = user_id then (k, v\<lparr>clips := clips v @ [clip_id c]\<rparr>)
                                 else (k, v))
                    (twitch_clips st1)\<rparr>))
      else clip_loop up user_id cd rest st)"

text \<open>\<open>check_clips\<close> (lines 284 to 299): the loop over the subjects, then the function.\<close>

fun clip_subjects ::
  "upstream \<Rightarrow> (string \<times> clip_data) list \<Rightarrow> bot_state \<Rightarrow> exn option \<times> bot_state" where
  "clip_subjects up [] st = (None, st)"
| "clip_subjects up ((user_id, cd) # rest) st =
     (case new_clips up user_id of
        Inl e \<Rightarrow>
          clip_subjects up rest
            (st\<lparr>bot_log := bot_log st @ [Exception (''Error getting twitch clips '' @ user_id)]\<rparr>)
      | Inr cs \<Rightarrow>
          (case clip_loop up user_id cd cs st of
             (Some e, st1) \<Rightarrow> (Some e, st1)
           | (None, st1) \<Rightarrow> clip_subjects up rest st1))"

definition check_clips :: "upstream \<Rightarrow> bot_state \<Rightarrow> exn option \<times> bot_state" where
  "check_clips up st = clip_subjects up (twitch_clips st) st"

subsection \<open>The loop\<close>

text \<open>\<open>for account in follow_accounts: await self.check_followers(account)\<close>.\<close>

fun follow_accounts_loop ::
  "upstream \<Rightarrow> account list \<Rightarrow> bot_state \<Rightarrow> exn option \<times> bot_state" where
  "follow_accounts_loop up [] st = (None, st)"
| "follow_accounts_loop up (account # rest) st =
     (case check_followers up account st of
        (Some e, account1, st1) \<Rightarrow> (Some e, st1)
      | (None, account1, st1) \<Rightarrow> follow_accounts_loop up rest st1)"

text \<open>
  \<open>check_for_new_followers\<close> (lines 302 to 314), after the host is ready. The list
  gives the world's behaviour cycle by cycle; when it ends, the task is still polling.
  The task ends by leaving the \<open>while\<close> (\<open>Exited\<close>) or by an exception that leaves
  the coroutine (\<open>Crashed\<close>).
\<close>

datatype loop_end = Exited | Crashed exn | Polling

fun check_for_new_followers :: "upstream list \<Rightarrow> bot_state \<Rightarrow> loop_end \<times> bot_state" where
  "check_for_new_followers [] st = (Polling, st)"
| "check_for_new_followers (up # later) st =
     (if \<not> registered up then (Exited, st)
      else
        (case follow_accounts_loop up (twitch_accounts st) st of
           (Some e, st1) \<Rightarrow> (Crashed e, st1)
         | (None, st1) \<Rightarrow>
             (case check_clips up st1 of
                (Some e, st2) \<Rightarrow> (Crashed e, st2)
              | (None, st2) \<Rightarrow> check_for_new_followers later st2)))"

section \<open>Sample inputs\<close>

text \<open>Concrete sessions, client states and upstream behaviours, used to run the code.\<close>

definition three_pages :: "string page_source" where
  "three_pages =
     \<lparr>get_page = (\<lambda>n skip_next skip_prev.
                    if n = 0 then Inr ''page 0''
                    else if n = 1 then Inr ''page 1''
                    else if n = 2 then Inr ''page 2''
                    else Inl IndexError),
      get_max_pages = Some 3,
      get_kwargs_from_page = (\<lambda>p. Inr \<lparr>content = Some p, embed = None\<rparr>)\<rparr>"

definition one_page :: "string page_source" where
  "one_page =
     \<lparr>get_page = (\<lambda>n skip_next skip_prev. if n = 0 then Inr ''page 0'' else Inl IndexError),
      get_max_pages = Some 1,
      get_kwargs_from_page = (\<lambda>p. Inr \<lparr>content = Some p, embed = None\<rparr>)\<rparr>"

definition no_games :: "string page_source" where
  "no_games =
     \<lparr>get_page = (\<lambda>n skip_next skip_prev. Inl NoSchedule),
      get_max_pages = None,
      get_kwargs_from_page = (\<lambda>p. Inr \<lparr>content = Some p, embed = None\<rparr>)\<rparr>"

text \<open>
  A source whose pages are found and whose formatting fails, as \<open>RosterPages.format_page\<close>
  does on a player record that lacks a key.
\<close>

definition failing_format :: "string page_source" where
  "failing_format =
     \<lparr>get_page = (\<lambda>n skip_next skip_prev. Inr ''player''),
      get_max_pages = Some 3,
      get_kwargs_from_page = (\<lambda>p. Inl KeyError)\<rparr>"

definition next_only :: "string \<Rightarrow> button option" where
  "next_only emoji =
     (if emoji = ''next''
      then Some \<lparr>lock = True, action = BaseMenu_go_to_next_page failing_format\<rparr>
      else None)"

definition menu_at :: "int \<Rightarrow> menu" where
  "menu_at i =
     \<lparr>current_page = i, message = \<lparr>content = Some ''shown'', embed = None\<rparr>,
      running = True, deleted = False, menu_log = []\<rparr>"

definition limited :: attempt where
  "limited =
     \<lparr>api_tokens = [(''client_id'', ''abc'')],
      token_post = Inl ClientError,
      validate_status = Inl ClientError,
      reply = Inr \<lparr>status = 429, ratelimit_remaining = Absent, ratelimit_reset = Absent,
                   body = Inr (JDict [(''error'', JString ''Too Many Requests'')])\<rparr>\<rparr>"

definition served :: attempt where
  "served =
     \<lparr>api_tokens = [(''client_id'', ''abc'')],
      token_post = Inl ClientError,
      validate_status = Inl ClientError,
      reply = Inr \<lparr>status = 200, ratelimit_remaining = Absent, ratelimit_reset = Absent,
                   body = Inr (JDict [(''data'', JList [])])\<rparr>\<rparr>"

text \<open>The client as \<open>__init__\<close> leaves it, at second 1600000000.\<close>

definition fresh_client :: api_state where
  "fresh_client =
     \<lparr>access_token = [], rate_limit_remaining = 0, rate_limit_resets = {},
      clock = 1600000000, issued = [], api_log = []\<rparr>"

definition two_resets :: api_state where
  "two_resets = fresh_client\<lparr>rate_limit_resets := {1600000001, 1600000008}\<rparr>"

definition one_reset :: api_state where
  "one_reset = fresh_client\<lparr>rate_limit_resets := {1600000005}, clock := 1600000000 + 1 / 2\<rparr>"

definition streamer :: profile where
  "streamer = \<lparr>p_id = ''100'', login = ''streamer'', display_name = ''Streamer''\<rparr>"

definition fan :: profile where
  "fan = \<lparr>p_id = ''u2'', login = ''fan'', display_name = ''Fan''\<rparr>"

definition account_A :: account where
  "account_A = \<lparr>acc_id = ''100'', followers = [''u1''], channels = [10, 11]\<rparr>"

definition config_A :: bot_state where
  "config_A = \<lparr>twitch_accounts = [account_A], twitch_clips = [], sent = [], bot_log = []\<rparr>"

definition twitch_up :: upstream where
  "twitch_up =
     \<lparr>registered = True,
      profile_from_id = (\<lambda>i. if i = ''100'' then Inr streamer
                              else if i = ''u2'' then Inr fan else Inl ClientError),
      new_followers = (\<lambda>i. Inr ([\<lparr>from_id = ''u2''\<rparr>, \<lparr>from_id = ''u1''\<rparr>], 2)),
      new_clips = (\<lambda>i. Inr []),
      get_channel = (\<lambda>c. if c = 10 \<or> c = 11
                          then Some \<lparr>embed_links = True, send_messages = True\<rparr> else None)\<rparr>"

definition twitch_down :: upstream where
  "twitch_down = twitch_up\<lparr>profile_from_id := (\<lambda>i. Inl ClientError)\<rparr>"

definition fan_lookup_fails :: upstream where
  "fan_lookup_fails =
     twitch_up\<lparr>profile_from_id := (\<lambda>i. if i = ''100'' then Inr streamer else Inl ClientError)\<rparr>"

definition channel_gone :: upstream where
  "channel_gone =
     twitch_up\<lparr>get_channel := (\<lambda>c. if c = 10
                          then Some \<lparr>embed_links = True, send_messages = True\<rparr> else None)\<rparr>"

section \<open>Auxiliary facts\<close>

subsection \<open>The API client\<close>

lemma oauth_check_no_secret:
  "map_of (api_tokens net) ''client_secret'' = None \<Longrightarrow> oauth_check net st = (None, st)"
  by (subst oauth_check.simps) simp

lemma oauth_check_frame:
  "rate_limit_remaining (snd (oauth_check net st)) = rate_limit_remaining st
   \<and> rate_limit_resets (snd (oauth_check net st)) = rate_limit_resets st
   \<and> clock (snd (oauth_check net st)) = clock st
   \<and> issued (snd (oauth_check net st)) = issued st"
proof (induction net st rule: oauth_check.induct)
  case (1 net st)
  show ?case
    by (subst (1 2 3 4) oauth_check.simps) (use 1 in \<open>auto simp: Let_def split: option.splits sum.splits\<close>)
qed

lemma oauth_check_log:
  "api_log (snd (oauth_check net st)) = api_log st"
proof (induction net st rule: oauth_check.induct)
  case (1 net st)
  show ?case
    by (subst oauth_check.simps) (use 1 in \<open>auto simp: Let_def split: option.splits sum.splits\<close>)
qed

lemma filter_insert:
  "{x \<in> insert a A. P x} = (if P a then insert a {x \<in> A. P x} else {x \<in> A. P x})"
  by auto

lemma wait_pending:
  assumes "rate_limit_remaining st = 0"
    and "{x \<in> rate_limit_resets st. \<lfloor>clock st\<rfloor> < x} \<noteq> {}"
  shows "wait_for_rate_limit_reset first st =
           st\<lparr>rate_limit_resets := {x \<in> rate_limit_resets st. \<lfloor>clock st\<rfloor> < x},
              clock := clock st +
                (of_int (first {x \<in> rate_limit_resets st. \<lfloor>clock st\<rfloor> < x} - \<lfloor>clock st\<rfloor>) + 1 / 10)\<rparr>"
  unfolding wait_for_rate_limit_reset_def Let_def using assms by (simp del: Collect_empty_eq)

lemma wait_frame:
  "issued (wait_for_rate_limit_reset first st) = issued st"
  by (simp add: wait_for_rate_limit_reset_def Let_def del: Collect_empty_eq)

lemma wait_log:
  "api_log (wait_for_rate_limit_reset first st) = api_log st"
  by (simp add: wait_for_rate_limit_reset_def Let_def del: Collect_empty_eq)

lemma read_headers_frame:
  "issued (snd (read_headers resp st)) = issued st"
  by (simp add: read_headers_def Let_def split: header.splits)

lemma read_headers_ok:
  assumes "ratelimit_remaining resp \<noteq> Malformed" and "ratelimit_reset resp \<noteq> Malformed"
  shows "fst (read_headers resp st) = None
         \<and> issued (snd (read_headers resp st)) = issued st
         \<and> api_log (snd (read_headers resp st)) = api_log st"
  using assms by (simp add: read_headers_def Let_def split: header.splits)

lemma get_response_issued:
  "\<exists>more. issued (snd (get_response first url nets st)) = issued st @ more"
proof (induction nets arbitrary: st)
  case Nil
  show ?case by simp
next
  case (Cons net later)
  obtain r st1 where o: "oauth_check net st = (r, st1)"
    by (cases "oauth_check net st")
  have i1: "issued st1 = issued st"
    using oauth_check_frame [of net st] o by simp
  show ?case
  proof (cases r)
    case (Some e)
    then show ?thesis using o i1 by simp
  next
    case None
    note r = this
    show ?thesis
    proof (cases "get_header net st1")
      case (Inl e)
      then show ?thesis using o r i1 by simp
    next
      case (Inr hdr)
      note h = this
      let ?st3 = "(wait_for_rate_limit_reset first st1)
                    \<lparr>issued := issued (wait_for_rate_limit_reset first st1)
                       @ [(clock (wait_for_rate_limit_reset first st1), url, hdr)]\<rparr>"
      have i3: "issued ?st3 = issued st @ [(clock (wait_for_rate_limit_reset first st1), url, hdr)]"
        by (simp add: wait_frame i1)
      show ?thesis
      proof (cases "reply net")
        case (Inl e)
        then show ?thesis using o r h i3 by (simp add: Let_def)
      next
        case (Inr resp)
        note rp = this
        obtain x st4 where rh: "read_headers resp ?st3 = (x, st4)"
          by (cases "read_headers resp ?st3")
        have i4: "issued st4 = issued ?st3"
          using read_headers_frame [of resp ?st3] rh by simp
        show ?thesis
        proof (cases x)
          case (Some e)
          then show ?thesis using o r h rp rh i4 i3 by (simp add: Let_def)
        next
          case None
          note x = this
          show ?thesis
          proof (cases "status resp = 429")
            case True
            obtain more where
              "issued (snd (get_response first url later
                 (st4\<lparr>api_log := api_log st4 @ [Info ''Trying again'']\<rparr>))) =
               issued (st4\<lparr>api_log := api_log st4 @ [Info ''Trying again'']\<rparr>) @ more"
              using Cons.IH by blast
            then show ?thesis using o r h rp rh x True i4 i3 by (simp add: Let_def)
          next
            case False
            then show ?thesis using o r h rp rh x i4 i3
              by (simp add: Let_def split: sum.splits)
          qed
        qed
      qed
    qed
  qed
qed

lemma get_response_first_request:
  assumes o: "oauth_check net st = (None, s1)" and h: "get_header net s1 = Inr hdr"
  shows "\<exists>more. issued (snd (get_response first url (net # later) st)) =
           issued st @ (clock (wait_for_rate_limit_reset first s1), url, hdr) # more"
proof -
  define s2 where "s2 = wait_for_rate_limit_reset first s1"
  define s3 where "s3 = s2\<lparr>issued := issued s2 @ [(clock s2, url, hdr)]\<rparr>"
  have i3: "issued s3 = issued st @ [(clock s2, url, hdr)]"
    using oauth_check_frame [of net st] o by (simp add: s3_def s2_def wait_frame)
  show ?thesis
  proof (cases "reply net")
    case (Inl e)
    then show ?thesis
      using o h i3 by (simp add: Let_def s2_def [symmetric] s3_def [symmetric])
  next
    case (Inr resp)
    note rp = this
    obtain x s4 where rh: "read_headers resp s3 = (x, s4)"
      by (cases "read_headers resp s3")
    have i4: "issued s4 = issued st @ [(clock s2, url, hdr)]"
      using read_headers_frame [of resp s3] rh i3 by simp
    show ?thesis
    proof (cases "x = None \<and> status resp = 429")
      case True
      obtain more where
        "issued (snd (get_response first url later
           (s4\<lparr>api_log := api_log s4 @ [Info ''Trying again'']\<rparr>))) =
         issued (s4\<lparr>api_log := api_log s4 @ [Info ''Trying again'']\<rparr>) @ more"
        using get_response_issued by blast
      then show ?thesis
        using o h rp rh True i4
        by (simp add: Let_def s2_def [symmetric] s3_def [symmetric])
    next
      case False
      then show ?thesis
        using o h rp rh i4
        by (auto simp add: Let_def s2_def [symmetric] s3_def [symmetric]
            split: sum.splits option.splits)
    qed
  qed
qed

lemma get_response_never_429:
  "get_response first url nets st = (Returned data, st') \<Longrightarrow>
     \<exists>net \<in> set nets. \<exists>resp. reply net = Inr resp \<and> status resp \<noteq> 429 \<and> body resp = Inr data"
  by (induction nets arbitrary: st)
     (auto simp: Let_def split: prod.splits option.splits sum.splits if_splits)

lemma get_response_retry:
  assumes "fst (oauth_check net st) = None"
    and "get_header net (snd (oauth_check net st)) = Inr hdr"
    and "reply net = Inr resp"
    and "status resp = 429"
    and "ratelimit_remaining resp \<noteq> Malformed" and "ratelimit_reset resp \<noteq> Malformed"
  shows "\<exists>st1. get_response first url (net # later) st = get_response first url later st1
           \<and> (\<exists>t. issued st1 = issued st @ [(t, url, hdr)])
           \<and> api_log st1 = api_log st @ [Info ''Trying again'']"
proof -
  define s1 where "s1 = snd (oauth_check net st)"
  define s2 where "s2 = wait_for_rate_limit_reset first s1"
  define s3 where "s3 = s2\<lparr>issued := issued s2 @ [(clock s2, url, hdr)]\<rparr>"
  define s4 where "s4 = snd (read_headers resp s3)"
  have o: "oauth_check net st = (None, s1)"
    using assms(1) by (simp add: s1_def prod_eq_iff)
  have h: "get_header net s1 = Inr hdr"
    using assms(2) by (simp add: s1_def)
  have rh: "read_headers resp s3 = (None, s4)"
    using read_headers_ok [OF assms(5,6), of s3] by (simp add: s4_def prod_eq_iff)
  have run: "get_response first url (net # later) st =
               get_response first url later (s4\<lparr>api_log := api_log s4 @ [Info ''Trying again'']\<rparr>)"
    using o h rh assms(3,4) by (simp add: Let_def s2_def s3_def)
  have i: "issued s4 = issued st @ [(clock s2, url, hdr)]"
    using read_headers_ok [OF assms(5,6), of s3] oauth_check_frame [of net st]
    by (simp add: s4_def s3_def s2_def s1_def wait_frame)
  have l: "api_log s4 = api_log st"
    using read_headers_ok [OF assms(5,6), of s3] oauth_check_log [of net st]
    by (simp add: s4_def s3_def s2_def s1_def wait_log)
  show ?thesis
    using run i l by (intro exI [of _ "s4\<lparr>api_log := api_log s4 @ [Info ''Trying again'']\<rparr>"]) simp
qed

lemma resets_already_empty:
  "rate_limit_resets st = {} \<Longrightarrow> st\<lparr>rate_limit_resets := {}\<rparr> = st"
  by (cases st) simp

lemma retry_unbounded:
  "access_token st = [] \<Longrightarrow> rate_limit_remaining st = 0 \<Longrightarrow> rate_limit_resets st = {} \<Longrightarrow>
   get_response first url (replicate n limited @ [served]) st =
     (Returned (JDict [(''data'', JList [])]),
      st\<lparr>issued := issued st @ replicate (Suc n) (clock st, url, [(''Client-ID'', ''abc'')]),
         api_log := api_log st @ replicate n (Info ''Trying again'')\<rparr>)"
proof (induction n arbitrary: st)
  case 0
  then show ?case
    by (simp add: served_def oauth_check_no_secret get_header_def
        wait_for_rate_limit_reset_def read_headers_def Let_def resets_already_empty)
next
  case (Suc n)
  let ?st1 = "st\<lparr>issued := issued st @ [(clock st, url, [(''Client-ID'', ''abc'')])],
                 api_log := api_log st @ [Info ''Trying again'']\<rparr>"
  have step: "get_response first url (limited # (replicate n limited @ [served])) st =
                get_response first url (replicate n limited @ [served]) ?st1"
    using Suc.prems
    by (simp add: limited_def oauth_check_no_secret get_header_def
        wait_for_rate_limit_reset_def read_headers_def Let_def resets_already_empty)
  have "get_response first url (replicate n limited @ [served]) ?st1 =
     (Returned (JDict [(''data'', JList [])]),
      ?st1\<lparr>issued := issued ?st1 @ replicate (Suc n) (clock ?st1, url, [(''Client-ID'', ''abc'')]),
         api_log := api_log ?st1 @ replicate n (Info ''Trying again'')\<rparr>)"
    by (rule Suc.IH) (use Suc.prems in simp_all)
  then show ?case
    using step by (simp add: replicate_app_Cons_same)
qed

lemma two_resets_pending:
  "{x \<in> rate_limit_resets two_resets. \<lfloor>clock two_resets\<rfloor> < x} = {1600000001, 1600000008}"
  unfolding two_resets_def fresh_client_def by (simp add: filter_insert del: insert_iff)

lemma get_new_clips_state:
  "snd (get_new_clips first user_id started_at utcnow nets st) =
     snd (get_response first (get_new_clips_url user_id started_at utcnow) nets st)"
  by (simp add: get_new_clips_def split: prod.splits outcome.splits sum.splits)

subsection \<open>The follower check\<close>

lemma send_follow_sent:
  "\<exists>msgs. sent (snd (send_follow up em cs st)) = sent st @ msgs
     \<and> (\<forall>msg \<in> set msgs. \<exists>c. msg = SentEmbed c em)"
proof (induction cs arbitrary: st)
  case Nil
  show ?case by simp
next
  case (Cons c cs)
  show ?case
  proof (cases "get_channel up c")
    case None
    then show ?thesis using Cons.IH [of st] by simp
  next
    case (Some ch)
    show ?thesis
    proof (cases "embed_links ch")
      case True
      obtain msgs where
        "sent (snd (send_follow up em cs (st\<lparr>sent := sent st @ [SentEmbed c em]\<rparr>))) =
           sent (st\<lparr>sent := sent st @ [SentEmbed c em]\<rparr>) @ msgs"
        "\<forall>msg \<in> set msgs. \<exists>c. msg = SentEmbed c em"
        using Cons.IH by blast
      then show ?thesis
        using Some True by (intro exI [of _ "SentEmbed c em # msgs"]) simp
    next
      case False
      then show ?thesis using Some by simp
    qed
  qed
qed

lemma send_follow_all:
  "list_all (\<lambda>c. case get_channel up c of None \<Rightarrow> True | Some ch \<Rightarrow> embed_links ch) cs \<Longrightarrow>
   send_follow up em cs st =
     (None, st\<lparr>sent := sent st @ map (\<lambda>c. SentEmbed c em)
                                  (filter (\<lambda>c. get_channel up c \<noteq> None) cs)\<rparr>)"
  by (induction cs arbitrary: st) (auto split: option.splits)

lemma follow_loop_followers:
  "\<exists>new. followers (fst (snd (follow_loop up followed total_n fs profile account st))) =
            followers account @ new
         \<and> distinct new \<and> set new \<inter> set (followers account) = {}"
proof (induction fs arbitrary: profile account st)
  case Nil
  show ?case by simp
next
  case (Cons f fs)
  show ?case
  proof (cases "from_id f \<in> set (followers account)")
    case True
    then show ?thesis using Cons.IH [of profile account st] by simp
  next
    case False
    define account1 where "account1 = account\<lparr>followers := followers account @ [from_id f]\<rparr>"
    have step: "\<exists>new. followers (fst (snd (follow_loop up followed total_n fs q account1 s))) =
                  followers account @ new
                \<and> distinct new \<and> set new \<inter> set (followers account) = {}" for q s
    proof -
      obtain new where n: "followers (fst (snd (follow_loop up followed total_n fs q account1 s))) =
            followers account1 @ new" "distinct new" "set new \<inter> set (followers account1) = {}"
        using Cons.IH [of q account1 s] by blast
      show ?thesis
        using n False by (intro exI [of _ "from_id f # new"]) (auto simp: account1_def)
    qed
    show ?thesis
      using False step
      by (auto simp: Let_def account1_def split: sum.splits option.splits prod.splits)
  qed
qed

lemma follow_loop_sent:
  assumes "\<forall>i p. profile_from_id up i = Inr p \<longrightarrow> p_id p = i"
    and "case profile of None \<Rightarrow> True | Some p \<Rightarrow> p_id p \<notin> R"
    and "R \<subseteq> set (followers account)"
  shows "\<exists>msgs. sent (snd (snd (follow_loop up followed total_n fs profile account st))) =
                  sent st @ msgs
         \<and> (\<forall>msg \<in> set msgs. case msg of
                SentEmbed c em \<Rightarrow> p_id (em_author em) \<notin> R
              | SentText c t \<Rightarrow> False)"
  using assms(2,3)
proof (induction fs arbitrary: profile account st)
  case Nil
  show ?case by simp
next
  case (Cons f fs)
  show ?case
  proof (cases "from_id f \<in> set (followers account)")
    case True
    then show ?thesis using Cons.IH [OF Cons.prems, of st] by simp
  next
    case False
    note new = this
    define st1 where "st1 = (case profile_from_id up (from_id f) of
        Inr p \<Rightarrow> st
      | Inl e \<Rightarrow> st\<lparr>bot_log := bot_log st @ [Error (''Error getting twitch profile '' @ from_id f)]\<rparr>)"
    define profile1 where "profile1 = (case profile_from_id up (from_id f) of
        Inr p \<Rightarrow> Some p | Inl e \<Rightarrow> profile)"
    have s1: "sent st1 = sent st"
      by (simp add: st1_def split: sum.splits)
    have p1: "case profile1 of None \<Rightarrow> True | Some p \<Rightarrow> p_id p \<notin> R"
      using Cons.prems new assms(1) by (auto simp: profile1_def split: sum.splits)
    have unf: "follow_loop up followed total_n (f # fs) profile account st =
      (case profile1 of
         None \<Rightarrow> (Some UnboundLocalError, account, st1)
       | Some p \<Rightarrow>
           (let st2 = st1\<lparr>bot_log := bot_log st1 @ [Info (login p @ '' Followed!'')]\<rparr>;
                em = make_follow_embed followed p total_n
            in case send_follow up em (channels account) st2 of
                 (Some e, st3) \<Rightarrow> (Some e, account, st3)
               | (None, st3) \<Rightarrow>
                   (if account \<in> set (twitch_accounts st3) then
                      (let account1 = account\<lparr>followers := followers account @ [from_id f]\<rparr>;
                           st4 = st3\<lparr>twitch_accounts :=
                                   remove1 account (twitch_accounts st3) @ [account1]\<rparr>
                       in follow_loop up followed total_n fs (Some p) account1 st4)
                    else (Some ValueError, account, st3))))"
      using new
      by (cases "profile_from_id up (from_id f)"; cases profile)
         (simp_all add: st1_def profile1_def)
    show ?thesis
    proof (cases profile1)
      case None
      then show ?thesis using unf s1 by simp
    next
      case (Some p)
      note sp = this
      define st2 where "st2 = st1\<lparr>bot_log := bot_log st1 @ [Info (login p @ '' Followed!'')]\<rparr>"
      define em where "em = make_follow_embed followed p total_n"
      obtain r st3 where sf: "send_follow up em (channels account) st2 = (r, st3)"
        by (cases "send_follow up em (channels account) st2")
      obtain m1 where m1: "sent st3 = sent st @ m1" "\<forall>msg \<in> set m1. \<exists>c. msg = SentEmbed c em"
        using send_follow_sent [of up em "channels account" st2] sf s1
        by (auto simp: st2_def)
      have good1: "\<forall>msg \<in> set m1. case msg of
                SentEmbed c em \<Rightarrow> p_id (em_author em) \<notin> R
              | SentText c t \<Rightarrow> False"
        using m1(2) p1 sp by (auto simp: em_def make_follow_embed_def)
      show ?thesis
      proof (cases "r = None \<and> account \<in> set (twitch_accounts st3)")
        case False
        then show ?thesis
          unfolding unf using sp sf m1(1) good1
          by (cases r) (auto simp: Let_def st2_def [symmetric] em_def [symmetric])
      next
        case True
        define account1 where "account1 = account\<lparr>followers := followers account @ [from_id f]\<rparr>"
        define st4 where "st4 = st3\<lparr>twitch_accounts :=
                                   remove1 account (twitch_accounts st3) @ [account1]\<rparr>"
        have run: "follow_loop up followed total_n (f # fs) profile account st =
                     follow_loop up followed total_n fs (Some p) account1 st4"
          using unf sp sf True
          by (simp add: Let_def st2_def [symmetric] em_def [symmetric] account1_def st4_def)
        have pp: "case Some p of None \<Rightarrow> True | Some p \<Rightarrow> p_id p \<notin> R"
          using p1 sp by simp
        have rr: "R \<subseteq> set (followers account1)"
          using Cons.prems(2) by (auto simp: account1_def)
        obtain m2 where m2:
          "sent (snd (snd (follow_loop up followed total_n fs (Some p) account1 st4))) =
             sent st4 @ m2"
          "\<forall>msg \<in> set m2. case msg of
                SentEmbed c em \<Rightarrow> p_id (em_author em) \<notin> R
              | SentText c t \<Rightarrow> False"
          using Cons.IH [OF pp rr, of st4] by blast
        show ?thesis
          using run m1(1) m2 good1
          by (intro exI [of _ "m1 @ m2"]) (auto simp: st4_def)
      qed
    qed
  qed
qed

lemma scenario_loop:
  assumes "followers account = [u1]" and "u2 \<noteq> u1"
    and "fs = [\<lparr>from_id = u1\<rparr>, \<lparr>from_id = u2\<rparr>] \<or> fs = [\<lparr>from_id = u2\<rparr>, \<lparr>from_id = u1\<rparr>]"
    and "profile_from_id up u2 = Inr p"
    and "list_all (\<lambda>c. case get_channel up c of None \<Rightarrow> True | Some ch \<Rightarrow> embed_links ch)
           (channels account)"
    and "account \<in> set (twitch_accounts st)"
  shows "follow_loop up followed total_n fs None account st =
     (None, account\<lparr>followers := [u1, u2]\<rparr>,
      st\<lparr>bot_log := bot_log st @ [Info (login p @ '' Followed!'')],
         sent := sent st @ map (\<lambda>c. SentEmbed c (make_follow_embed followed p total_n))
                            (filter (\<lambda>c. get_channel up c \<noteq> None) (channels account)),
         twitch_accounts := remove1 account (twitch_accounts st)
                            @ [account\<lparr>followers := [u1, u2]\<rparr>]\<rparr>)"
proof -
  let ?st2 = "st\<lparr>bot_log := bot_log st @ [Info (login p @ '' Followed!'')]\<rparr>"
  have sf: "send_follow up (make_follow_embed followed p total_n) (channels account) ?st2 =
     (None, ?st2\<lparr>sent := sent ?st2 @ map (\<lambda>c. SentEmbed c (make_follow_embed followed p total_n))
                            (filter (\<lambda>c. get_channel up c \<noteq> None) (channels account))\<rparr>)"
    by (rule send_follow_all [OF assms(5)])
  show ?thesis
    using assms(3)
  proof
    assume "fs = [\<lparr>from_id = u1\<rparr>, \<lparr>from_id = u2\<rparr>]"
    then show ?thesis
      using assms(1,2,4,6) sf by (simp add: Let_def)
  next
    assume "fs = [\<lparr>from_id = u2\<rparr>, \<lparr>from_id = u1\<rparr>]"
    then show ?thesis
      using assms(1,2,4,6) sf by (simp add: Let_def)
  qed
qed

section \<open>The claims\<close>

subsection \<open>C1: errors and the polling loop\<close>

text \<open>
  Claim C1 says that no error raised while checking a followed account or a clip subject
  ends the polling loop. The code does not keep this for followed accounts. In a cycle in
  which the instance is registered and every profile lookup fails, the first statement of
  \<open>check_followers\<close> raises, nothing between it and the \<open>while\<close> loop catches the
  exception, and the task ends with it. When only the lookup of the new follower fails,
  the handler logs the failure and falls through to a use of the unbound variable
  \<open>profile\<close>: the task ends with an \<open>UnboundLocalError\<close>.
\<close>

theorem C1_lookup_failure_ends_loop:
  "check_for_new_followers [twitch_down] config_A = (Crashed ClientError, config_A)
   \<and> fst (check_for_new_followers [fan_lookup_fails] config_A) = Crashed UnboundLocalError"
  by (simp add: twitch_down_def fan_lookup_fails_def twitch_up_def config_A_def account_A_def
      check_followers_def)

subsection \<open>C2: a recorded follower is not notified again\<close>

text \<open>
  Claim C2, as amended. In one check of an account, no message sent is about a follower
  whose identifier was in the recorded list when the check began (the upstream answering
  a lookup with the profile of the identifier asked for), and the recorded list only grows,
  by identifiers that are new and pairwise distinct. In the scenario (recorded
  \<open>[u1]\<close>, fetched \<open>u1\<close> and \<open>u2\<close> in either order, the lookups succeeding, every
  destination that resolves permitting embeds, the account present in the configuration),
  the check ends normally, exactly one embed for \<open>u2\<close> is sent to each registered
  destination that resolves to a channel, in the order of the list, and the recorded list
  is \<open>[u1, u2]\<close> afterwards, also in the configuration.
\<close>

theorem C2_followers_notified_once:
  "((\<forall>i q. profile_from_id up i = Inr q \<longrightarrow> p_id q = i) \<longrightarrow>
      (\<exists>msgs. sent (snd (snd (check_followers up account st))) = sent st @ msgs
         \<and> list_all (\<lambda>msg. case msg of
                SentEmbed c em \<Rightarrow> p_id (em_author em) \<notin> set (followers account)
              | SentText c t \<Rightarrow> False) msgs))
   \<and> (\<exists>new. followers (fst (snd (check_followers up account st))) = followers account @ new
         \<and> distinct new \<and> set new \<inter> set (followers account) = {})
   \<and> (followers account = [u1] \<and> u2 \<noteq> u1
       \<and> (follows = [\<lparr>from_id = u1\<rparr>, \<lparr>from_id = u2\<rparr>] \<or> follows = [\<lparr>from_id = u2\<rparr>, \<lparr>from_id = u1\<rparr>])
       \<and> profile_from_id up (acc_id account) = Inr followed
       \<and> new_followers up (acc_id account) = Inr (follows, total_n)
       \<and> profile_from_id up u2 = Inr p
       \<and> list_all (\<lambda>c. case get_channel up c of None \<Rightarrow> True | Some ch \<Rightarrow> embed_links ch)
            (channels account)
       \<and> account \<in> set (twitch_accounts st) \<longrightarrow>
      fst (check_followers up account st) = None
      \<and> followers (fst (snd (check_followers up account st))) = [u1, u2]
      \<and> sent (snd (snd (check_followers up account st))) =
          sent st @ map (\<lambda>c. SentEmbed c (make_follow_embed followed p total_n))
                      (filter (\<lambda>c. get_channel up c \<noteq> None) (channels account))
      \<and> twitch_accounts (snd (snd (check_followers up account st))) =
          remove1 account (twitch_accounts st) @ [account\<lparr>followers := [u1, u2]\<rparr>])"
proof (intro conjI impI)
  assume faithful: "\<forall>i q. profile_from_id up i = Inr q \<longrightarrow> p_id q = i"
  have "\<exists>msgs. sent (snd (snd (check_followers up account st))) = sent st @ msgs
         \<and> (\<forall>msg \<in> set msgs. case msg of
                SentEmbed c em \<Rightarrow> p_id (em_author em) \<notin> set (followers account)
              | SentText c t \<Rightarrow> False)"
  proof (cases "profile_from_id up (acc_id account)")
    case (Inl e)
    then show ?thesis by (simp add: check_followers_def)
  next
    case (Inr fd)
    show ?thesis
    proof (cases "new_followers up (acc_id account)")
      case (Inl e)
      then show ?thesis using Inr by (simp add: check_followers_def)
    next
      case (Inr res)
      obtain fl tn where res: "res = (fl, tn)"
        by (cases res)
      have "\<exists>msgs. sent (snd (snd (follow_loop up fd tn (rev fl) None account st))) = sent st @ msgs
         \<and> (\<forall>msg \<in> set msgs. case msg of
                SentEmbed c em \<Rightarrow> p_id (em_author em) \<notin> set (followers account)
              | SentText c t \<Rightarrow> False)"
        by (rule follow_loop_sent [OF faithful]) simp_all
      then show ?thesis
        using \<open>profile_from_id up (acc_id account) = Inr fd\<close> Inr res
        by (simp add: check_followers_def)
    qed
  qed
  then show "\<exists>msgs. sent (snd (snd (check_followers up account st))) = sent st @ msgs
         \<and> list_all (\<lambda>msg. case msg of
                SentEmbed c em \<Rightarrow> p_id (em_author em) \<notin> set (followers account)
              | SentText c t \<Rightarrow> False) msgs"
    by (simp add: list_all_iff)
next
  show "\<exists>new. followers (fst (snd (check_followers up account st))) = followers account @ new
         \<and> distinct new \<and> set new \<inter> set (followers account) = {}"
  proof (cases "profile_from_id up (acc_id account)")
    case (Inl e)
    then show ?thesis by (simp add: check_followers_def)
  next
    case (Inr fd)
    show ?thesis
    proof (cases "new_followers up (acc_id account)")
      case (Inl e)
      then show ?thesis using Inr by (simp add: check_followers_def)
    next
      case (Inr res)
      obtain fl tn where res: "res = (fl, tn)"
        by (cases res)
      show ?thesis
        using \<open>profile_from_id up (acc_id account) = Inr fd\<close> Inr res
          follow_loop_followers [of up fd tn "rev fl" None account st]
        by (simp add: check_followers_def)
    qed
  qed
next
  assume a: "followers account = [u1] \<and> u2 \<noteq> u1
       \<and> (follows = [\<lparr>from_id = u1\<rparr>, \<lparr>from_id = u2\<rparr>] \<or> follows = [\<lparr>from_id = u2\<rparr>, \<lparr>from_id = u1\<rparr>])
       \<and> profile_from_id up (acc_id account) = Inr followed
       \<and> new_followers up (acc_id account) = Inr (follows, total_n)
       \<and> profile_from_id up u2 = Inr p
       \<and> list_all (\<lambda>c. case get_channel up c of None \<Rightarrow> True | Some ch \<Rightarrow> embed_links ch)
            (channels account)
       \<and> account \<in> set (twitch_accounts st)"
  have o: "rev follows = [\<lparr>from_id = u1\<rparr>, \<lparr>from_id = u2\<rparr>] \<or> rev follows = [\<lparr>from_id = u2\<rparr>, \<lparr>from_id = u1\<rparr>]"
    using a by auto
  have run: "check_followers up account st =
               follow_loop up followed total_n (rev follows) None account st"
    using a by (simp add: check_followers_def)
  note loop = scenario_loop [of account u1 u2 "rev follows" up p st followed total_n, OF _ _ o]
  have res: "follow_loop up followed total_n (rev follows) None account st =
     (None, account\<lparr>followers := [u1, u2]\<rparr>,
      st\<lparr>bot_log := bot_log st @ [Info (login p @ '' Followed!'')],
         sent := sent st @ map (\<lambda>c. SentEmbed c (make_follow_embed followed p total_n))
                            (filter (\<lambda>c. get_channel up c \<noteq> None) (channels account)),
         twitch_accounts := remove1 account (twitch_accounts st)
                            @ [account\<lparr>followers := [u1, u2]\<rparr>]\<rparr>)"
    using a by (intro loop) simp_all
  show "fst (check_followers up account st) = None"
    "followers (fst (snd (check_followers up account st))) = [u1, u2]"
    "sent (snd (snd (check_followers up account st))) =
          sent st @ map (\<lambda>c. SentEmbed c (make_follow_embed followed p total_n))
                      (filter (\<lambda>c. get_channel up c \<noteq> None) (channels account))"
    "twitch_accounts (snd (snd (check_followers up account st))) =
          remove1 account (twitch_accounts st) @ [account\<lparr>followers := [u1, u2]\<rparr>]"
    unfolding run res by simp_all
qed

text \<open>The amended claim at the sample account, both destinations resolving.\<close>

theorem C2_followers_notified_once_witness:
  "(\<exists>msgs. sent (snd (snd (check_followers twitch_up account_A config_A))) = sent config_A @ msgs
      \<and> list_all (\<lambda>msg. case msg of
             SentEmbed c em \<Rightarrow> p_id (em_author em) \<notin> set (followers account_A)
           | SentText c t \<Rightarrow> False) msgs)
   \<and> fst (check_followers twitch_up account_A config_A) = None
   \<and> followers (fst (snd (check_followers twitch_up account_A config_A))) = [''u1'', ''u2'']
   \<and> sent (snd (snd (check_followers twitch_up account_A config_A))) =
       [SentEmbed 10 \<lparr>em_author = fan, em_account = streamer, em_total_followers = 2\<rparr>,
        SentEmbed 11 \<lparr>em_author = fan, em_account = streamer, em_total_followers = 2\<rparr>]"
proof -
  have faithful: "\<forall>i q. profile_from_id twitch_up i = Inr q \<longrightarrow> p_id q = i"
    by (simp add: twitch_up_def streamer_def fan_def)
  have scenario: "followers account_A = [''u1''] \<and> ''u2'' \<noteq> ''u1''
       \<and> ([\<lparr>from_id = ''u2''\<rparr>, \<lparr>from_id = ''u1''\<rparr>] = [\<lparr>from_id = ''u1''\<rparr>, \<lparr>from_id = ''u2''\<rparr>]
          \<or> [\<lparr>from_id = ''u2''\<rparr>, \<lparr>from_id = ''u1''\<rparr>] = [\<lparr>from_id = ''u2''\<rparr>, \<lparr>from_id = ''u1''\<rparr>])
       \<and> profile_from_id twitch_up (acc_id account_A) = Inr streamer
       \<and> new_followers twitch_up (acc_id account_A) =
           Inr ([\<lparr>from_id = ''u2''\<rparr>, \<lparr>from_id = ''u1''\<rparr>], 2)
       \<and> profile_from_id twitch_up ''u2'' = Inr fan
       \<and> list_all (\<lambda>c. case get_channel twitch_up c of None \<Rightarrow> True | Some ch \<Rightarrow> embed_links ch)
            (channels account_A)
       \<and> account_A \<in> set (twitch_accounts config_A)"
    by (simp add: twitch_up_def account_A_def config_A_def)
  have dests: "filter (\<lambda>c. get_channel twitch_up c \<noteq> None) (channels account_A) = [10, 11]"
    by (simp add: twitch_up_def account_A_def)
  have none: "sent config_A = []"
    by (simp add: config_A_def)
  note claim = C2_followers_notified_once [of twitch_up account_A config_A "''u1''" "''u2''"
      "[\<lparr>from_id = ''u2''\<rparr>, \<lparr>from_id = ''u1''\<rparr>]" streamer 2 fan]
  have a: "\<exists>msgs. sent (snd (snd (check_followers twitch_up account_A config_A))) = sent config_A @ msgs
      \<and> list_all (\<lambda>msg. case msg of
             SentEmbed c em \<Rightarrow> p_id (em_author em) \<notin> set (followers account_A)
           | SentText c t \<Rightarrow> False) msgs"
    using claim faithful by blast
  have b: "fst (check_followers twitch_up account_A config_A) = None
      \<and> followers (fst (snd (check_followers twitch_up account_A config_A))) = [''u1'', ''u2'']
      \<and> sent (snd (snd (check_followers twitch_up account_A config_A))) =
          sent config_A @ map (\<lambda>c. SentEmbed c (make_follow_embed streamer fan 2))
                      (filter (\<lambda>c. get_channel twitch_up c \<noteq> None) (channels account_A))"
    using claim scenario by blast
  have c: "sent (snd (snd (check_followers twitch_up account_A config_A))) =
       [SentEmbed 10 \<lparr>em_author = fan, em_account = streamer, em_total_followers = 2\<rparr>,
        SentEmbed 11 \<lparr>em_author = fan, em_account = streamer, em_total_followers = 2\<rparr>]"
    using b unfolding dests none by (simp add: make_follow_embed_def)
  show ?thesis
    using a b c by blast
qed

text \<open>
  Claim C2 as stated fails where a registered destination no longer resolves to a channel
  (\<open>if not channel: continue\<close>): destination 11 is registered and receives nothing, while
  the follower is recorded.
\<close>

theorem C2_destination_skipped:
  "11 \<in> set (channels account_A)
   \<and> fst (check_followers channel_gone account_A config_A) = None
   \<and> followers (fst (snd (check_followers channel_gone account_A config_A))) = [''u1'', ''u2'']
   \<and> sent (snd (snd (check_followers channel_gone account_A config_A))) =
       [SentEmbed 10 \<lparr>em_author = fan, em_account = streamer, em_total_followers = 2\<rparr>]"
  by (simp add: channel_gone_def twitch_up_def config_A_def account_A_def check_followers_def
      make_follow_embed_def Let_def)

subsection \<open>C3: waiting for the rate limit\<close>

text \<open>
  Claim C3, as amended. When the remaining-request counter is zero and some tracked reset
  timestamp is later than the current time cut to whole seconds, the client keeps exactly
  those timestamps and sleeps for the distance from the cut current time to one of them,
  the first in the set's iteration order, plus 0.1. So the clock after the wait is at
  least the earliest pending timestamp plus 0.1; with a single pending timestamp \<open>T\<close> the
  sleep is \<open>T\<close> minus the cut current time plus 0.1, and the clock afterwards is at
  least \<open>T + 0.1\<close>. The request that \<open>get_response\<close> issues next carries the time
  after the wait.
\<close>

theorem C3_rate_limit_wait:
  assumes "rate_limit_remaining st = 0"
    and "finite (rate_limit_resets st)"
    and "pending = {x \<in> rate_limit_resets st. \<lfloor>clock st\<rfloor> < x}"
    and "pending \<noteq> {}"
    and "first pending \<in> pending"
  shows "rate_limit_resets (wait_for_rate_limit_reset first st) = pending
    \<and> clock (wait_for_rate_limit_reset first st) =
        clock st + of_int (first pending - \<lfloor>clock st\<rfloor>) + 1 / 10
    \<and> of_int (Min pending) + 1 / 10 \<le> clock (wait_for_rate_limit_reset first st)
    \<and> (pending = {T} \<longrightarrow>
         clock (wait_for_rate_limit_reset first st) = clock st + of_int (T - \<lfloor>clock st\<rfloor>) + 1 / 10
         \<and> of_int T + 1 / 10 \<le> clock (wait_for_rate_limit_reset first st))
    \<and> (fst (oauth_check net st) = None \<and> get_header net (snd (oauth_check net st)) = Inr hdr \<longrightarrow>
         (\<exists>t more. issued (snd (get_response first url (net # later) st)) =
                      issued st @ (t, url, hdr) # more
                    \<and> of_int (Min pending) + 1 / 10 \<le> t))"
proof -
  have ne: "{x \<in> rate_limit_resets st. \<lfloor>clock st\<rfloor> < x} \<noteq> {}"
    using assms(3,4) by simp
  have w: "wait_for_rate_limit_reset first st =
             st\<lparr>rate_limit_resets := pending,
                clock := clock st + (of_int (first pending - \<lfloor>clock st\<rfloor>) + 1 / 10)\<rparr>"
    using wait_pending [OF assms(1) ne, of first] assms(3) by simp
  have fin: "finite pending"
    using assms(2,3) by simp
  have "Min pending \<le> first pending"
    using fin assms(5) by (rule Min_le)
  then have m: "(of_int (Min pending) :: rat) \<le> of_int (first pending)"
    by simp
  have fl: "(of_int \<lfloor>clock st\<rfloor> :: rat) \<le> clock st"
    by (rule of_int_floor_le)
  have late: "of_int (Min pending) + 1 / 10 \<le> clock st + of_int (first pending - \<lfloor>clock st\<rfloor>) + 1 / 10"
    using m fl by (simp only: of_int_diff)
  have single: "pending = {T} \<Longrightarrow> first pending = T"
    using assms(5) by simp
  have req: "\<exists>t more. issued (snd (get_response first url (net # later) st)) =
                      issued st @ (t, url, hdr) # more
                    \<and> of_int (Min pending) + 1 / 10 \<le> t"
    if a: "fst (oauth_check net st) = None"
      and b: "get_header net (snd (oauth_check net st)) = Inr hdr"
  proof -
    define s1 where "s1 = snd (oauth_check net st)"
    have o: "oauth_check net st = (None, s1)"
      using a by (simp add: s1_def prod_eq_iff)
    have f: "rate_limit_remaining s1 = 0" "rate_limit_resets s1 = rate_limit_resets st"
      "clock s1 = clock st"
      using oauth_check_frame [of net st] assms(1) by (simp_all add: s1_def)
    have ne1: "{x \<in> rate_limit_resets s1. \<lfloor>clock s1\<rfloor> < x} \<noteq> {}"
      using ne f by simp
    have c1: "clock (wait_for_rate_limit_reset first s1) =
                clock st + of_int (first pending - \<lfloor>clock st\<rfloor>) + 1 / 10"
      using wait_pending [OF f(1) ne1, of first] f assms(3) by simp
    obtain more where
      "issued (snd (get_response first url (net # later) st)) =
         issued st @ (clock (wait_for_rate_limit_reset first s1), url, hdr) # more"
      using get_response_first_request [OF o] b s1_def by blast
    then show ?thesis
      using c1 late by auto
  qed
  show ?thesis
    using w late single req by simp
qed

text \<open>
  The amended claim with a single pending reset, 1600000005, at time 1600000000.5: the
  request goes out at 1600000005.6.
\<close>

theorem C3_rate_limit_wait_witness:
  "rate_limit_resets (wait_for_rate_limit_reset Max one_reset) = {1600000005}
   \<and> clock (wait_for_rate_limit_reset Max one_reset) = 1600000005 + 6 / 10
   \<and> 1600000005 + 1 / 10 \<le> clock (wait_for_rate_limit_reset Max one_reset)
   \<and> (\<exists>t more. issued (snd (get_response Max ''url'' [served] one_reset)) =
                  issued one_reset @ (t, ''url'', [(''Client-ID'', ''abc'')]) # more
                \<and> 1600000005 + 1 / 10 \<le> t)"
proof -
  have r: "rate_limit_remaining one_reset = 0" "clock one_reset = 1600000000 + 1 / 2"
    "finite (rate_limit_resets one_reset)"
    by (simp_all add: one_reset_def fresh_client_def)
  have fl: "\<lfloor>clock one_reset\<rfloor> = 1600000000"
    unfolding r(2) by linarith
  have p: "{1600000005} = {x \<in> rate_limit_resets one_reset. \<lfloor>clock one_reset\<rfloor> < x}"
    unfolding fl by (simp add: one_reset_def fresh_client_def filter_insert del: insert_iff)
  have ne: "{1600000005::int} \<noteq> {}"
    by simp
  have m: "Max {1600000005::int} \<in> {1600000005}"
    by simp
  have o: "fst (oauth_check served one_reset) = None"
    "snd (oauth_check served one_reset) = one_reset"
    by (simp_all add: oauth_check_no_secret served_def)
  have h: "get_header served one_reset = Inr [(''Client-ID'', ''abc'')]"
    by (simp add: get_header_def served_def one_reset_def fresh_client_def)
  have pre: "fst (oauth_check served one_reset) = None
      \<and> get_header served (snd (oauth_check served one_reset)) = Inr [(''Client-ID'', ''abc'')]"
    using o h by simp
  note claim = C3_rate_limit_wait [where st = one_reset and first = Max
      and pending = "{1600000005}" and T = 1600000005 and net = served
      and hdr = "[(''Client-ID'', ''abc'')]" and url = "''url''" and later = "[]",
      OF r(1) r(3) p ne m]
  have a: "rate_limit_resets (wait_for_rate_limit_reset Max one_reset) = {1600000005}"
    using claim by blast
  have b: "clock (wait_for_rate_limit_reset Max one_reset) =
             clock one_reset + of_int (Max {1600000005} - \<lfloor>clock one_reset\<rfloor>) + 1 / 10"
    using claim by blast
  have c: "clock (wait_for_rate_limit_reset Max one_reset) = 1600000005 + 6 / 10"
  proof -
    have "clock (wait_for_rate_limit_reset Max one_reset) =
            clock one_reset + of_int (Max {1600000005} - 1600000000) + 1 / 10"
      using b by (simp only: fl)
    then show ?thesis
      by (simp add: r(2))
  qed
  have d: "\<exists>t more. issued (snd (get_response Max ''url'' [served] one_reset)) =
                  issued one_reset @ (t, ''url'', [(''Client-ID'', ''abc'')]) # more
                \<and> of_int (Min {1600000005}) + 1 / 10 \<le> t"
    using claim pre by blast
  have e: "(of_int (Min {1600000005}) :: rat) = 1600000005"
    by simp
  show ?thesis
    using a c d unfolding e by simp
qed

text \<open>
  Claim C3 as stated fails with two pending resets: of 1600000001 and 1600000008, CPython
  iterates the set from 1600000008 (slot 0 of its table, the other in slot 1), and the
  client sleeps until 1600000008.1, not until the earliest pending reset plus 0.1.
\<close>

theorem C3_not_the_earliest:
  "rate_limit_remaining two_resets = 0
   \<and> {x \<in> rate_limit_resets two_resets. \<lfloor>clock two_resets\<rfloor> < x} = {1600000001, 1600000008}
   \<and> Min {x \<in> rate_limit_resets two_resets. \<lfloor>clock two_resets\<rfloor> < x} = 1600000001
   \<and> clock (wait_for_rate_limit_reset Max two_resets) = 1600000008 + 1 / 10
   \<and> clock (wait_for_rate_limit_reset Max two_resets) \<noteq> 1600000001 + 1 / 10"
proof -
  have r: "rate_limit_remaining two_resets = 0" "clock two_resets = 1600000000"
    by (simp_all add: two_resets_def fresh_client_def)
  have ne: "{x \<in> rate_limit_resets two_resets. \<lfloor>clock two_resets\<rfloor> < x} \<noteq> {}"
    unfolding two_resets_pending by simp
  have c: "clock (wait_for_rate_limit_reset Max two_resets) = 1600000008 + 1 / 10"
    unfolding wait_pending [OF r(1) ne] two_resets_pending by (simp add: r)
  show ?thesis
    unfolding c two_resets_pending by (simp add: r)
qed

subsection \<open>C4: navigation past the ends\<close>

text \<open>
  Claim C4, as amended. In a \<open>BaseMenu\<close> session whose source reports a page count
  \<open>N > 0\<close>, "next" at index \<open>N - 1\<close> shows page 0 and "previous" at index 0 shows
  page \<open>N - 1\<close>; when the source reports no count, a request the source answers with
  \<open>IndexError\<close> changes nothing and raises nothing. A \<open>GamesMenu\<close> session never
  wraps: "next" and "previous" pass the index to the source as it is, whatever the page
  count, and an \<open>IndexError\<close> from the source changes nothing and raises nothing.
\<close>

theorem C4_navigation:
  "(get_max_pages src = Some N \<and> 0 < N \<and> current_page m = N - 1 \<longrightarrow>
      BaseMenu_go_to_next_page src m = except_IndexError (MenuPages_show_page src 0 m)
      \<and> (get_page src 0 False False = Inr page \<and> get_kwargs_from_page src page = Inr kwargs \<longrightarrow>
          BaseMenu_go_to_next_page src m = (None, m\<lparr>current_page := 0, message := kwargs\<rparr>)))
   \<and> (get_max_pages src = Some N \<and> 0 < N \<and> current_page m = 0 \<longrightarrow>
      BaseMenu_go_to_previous_page src m = except_IndexError (MenuPages_show_page src (N - 1) m)
      \<and> (get_page src (N - 1) False False = Inr page \<and> get_kwargs_from_page src page = Inr kwargs \<longrightarrow>
          BaseMenu_go_to_previous_page src m =
            (None, m\<lparr>current_page := N - 1, message := kwargs\<rparr>)))
   \<and> (get_max_pages src = None \<and> get_page src n False False = Inl IndexError \<longrightarrow>
      BaseMenu_show_checked_page src n m = (None, m))
   \<and> (get_page src n False False = Inl IndexError \<longrightarrow>
      GamesMenu_show_checked_page src n m = (None, m))
   \<and> GamesMenu_go_to_next_page src m =
        except_IndexError (GamesMenu_show_page src (current_page m + 1) False False m)
   \<and> GamesMenu_go_to_previous_page src m =
        except_IndexError (GamesMenu_show_page src (current_page m - 1) False False m)"
  by (auto simp: BaseMenu_go_to_next_page_def BaseMenu_go_to_previous_page_def
      BaseMenu_show_checked_page_def MenuPages_show_page_def GamesMenu_show_checked_page_def
      GamesMenu_go_to_next_page_def GamesMenu_go_to_previous_page_def
      GamesMenu_show_page_def except_IndexError_def Let_def)

text \<open>
  The amended claim on the three-page source: a \<open>BaseMenu\<close> at the last page goes to
  page 0, one at page 0 goes to page 2, and index 3 is ignored by both menus when the
  count is unknown.
\<close>

theorem C4_navigation_witness:
  "BaseMenu_go_to_next_page three_pages (menu_at 2) =
     (None, (menu_at 2)\<lparr>current_page := 0, message := \<lparr>content = Some ''page 0'', embed = None\<rparr>\<rparr>)
   \<and> BaseMenu_go_to_previous_page three_pages (menu_at 0) =
     (None, (menu_at 0)\<lparr>current_page := 2, message := \<lparr>content = Some ''page 2'', embed = None\<rparr>\<rparr>)
   \<and> BaseMenu_show_checked_page (three_pages\<lparr>get_max_pages := None\<rparr>) 3 (menu_at 2) =
     (None, menu_at 2)
   \<and> GamesMenu_show_checked_page (three_pages\<lparr>get_max_pages := None\<rparr>) 3 (menu_at 2) =
     (None, menu_at 2)"
proof -
  have src: "get_max_pages three_pages = Some 3"
    "get_page three_pages 0 False False = Inr ''page 0''"
    "get_page three_pages 2 False False = Inr ''page 2''"
    "get_kwargs_from_page three_pages ''page 0'' = Inr \<lparr>content = Some ''page 0'', embed = None\<rparr>"
    "get_kwargs_from_page three_pages ''page 2'' = Inr \<lparr>content = Some ''page 2'', embed = None\<rparr>"
    by (simp_all add: three_pages_def)
  have unk: "get_max_pages (three_pages\<lparr>get_max_pages := None\<rparr>) = None"
    "get_page (three_pages\<lparr>get_max_pages := None\<rparr>) 3 False False = Inl IndexError"
    by (simp_all add: three_pages_def)
  have at: "current_page (menu_at 2) = 3 - 1" "current_page (menu_at 0) = 0" "(0::int) < 3"
    by (simp_all add: menu_at_def)
  have a: "BaseMenu_go_to_next_page three_pages (menu_at 2) =
     (None, (menu_at 2)\<lparr>current_page := 0, message := \<lparr>content = Some ''page 0'', embed = None\<rparr>\<rparr>)"
    using C4_navigation [of three_pages 3 "menu_at 2" "''page 0''"
        "\<lparr>content = Some ''page 0'', embed = None\<rparr>"] src(1,2,4) at(1,3)
    by blast
  have two: "(3::int) - 1 = 2"
    by simp
  have b': "BaseMenu_go_to_previous_page three_pages (menu_at 0) =
     (None, (menu_at 0)\<lparr>current_page := 3 - 1, message := \<lparr>content = Some ''page 2'', embed = None\<rparr>\<rparr>)"
    using C4_navigation [of three_pages 3 "menu_at 0" "''page 2''"
        "\<lparr>content = Some ''page 2'', embed = None\<rparr>"] src(1,3,5) [folded two] at(2,3)
    by blast
  have b: "BaseMenu_go_to_previous_page three_pages (menu_at 0) =
     (None, (menu_at 0)\<lparr>current_page := 2, message := \<lparr>content = Some ''page 2'', embed = None\<rparr>\<rparr>)"
    using b' by simp
  have c: "BaseMenu_show_checked_page (three_pages\<lparr>get_max_pages := None\<rparr>) 3 (menu_at 2) =
             (None, menu_at 2)
           \<and> GamesMenu_show_checked_page (three_pages\<lparr>get_max_pages := None\<rparr>) 3 (menu_at 2) =
             (None, menu_at 2)"
    using C4_navigation [of "three_pages\<lparr>get_max_pages := None\<rparr>" _ "menu_at 2" _ _ 3] unk
    by blast
  show ?thesis
    using a b c by blast
qed

text \<open>
  Claim C4 as stated fails in a \<open>GamesMenu\<close> session whose source reports three pages:
  "next" at index 2 asks the source for page 3, the \<open>IndexError\<close> is ignored, and the
  session stays where it was instead of showing page 0.
\<close>

theorem C4_games_menu_does_not_wrap:
  "get_max_pages three_pages = Some 3 \<and> current_page (menu_at 2) = 3 - 1
   \<and> GamesMenu_go_to_next_page three_pages (menu_at 2) = (None, menu_at 2)
   \<and> GamesMenu_show_page three_pages 0 False False (menu_at 2) \<noteq> (None, menu_at 2)"
  by (simp add: three_pages_def menu_at_def GamesMenu_go_to_next_page_def
      GamesMenu_show_checked_page_def GamesMenu_show_page_def except_IndexError_def)

subsection \<open>C5: the no-schedule message\<close>

text \<open>
  Claim C5. When the page source answers with the no-schedule signal, \<open>GamesMenu.show_page\<close>
  raises nothing and replaces the displayed message by the text
  "No Schedule could be found for that date and team." with no embed; the same holds
  through \<open>show_checked_page\<close>, which ignores only \<open>IndexError\<close>. A plain
  \<open>IndexError\<close>, by contrast, leaves the displayed message as it was.
\<close>

theorem C5_no_schedule_message:
  "(get_page src page_number skip_next skip_prev = Inl NoSchedule \<longrightarrow>
      GamesMenu_show_page src page_number skip_next skip_prev m =
        (None, m\<lparr>message :=
           \<lparr>content = Some ''No Schedule could be found for that date and team.'',
            embed = None\<rparr>\<rparr>))
   \<and> (get_page src page_number False False = Inl NoSchedule \<longrightarrow>
      GamesMenu_show_checked_page src page_number m =
        (None, m\<lparr>message :=
           \<lparr>content = Some ''No Schedule could be found for that date and team.'',
            embed = None\<rparr>\<rparr>))
   \<and> (get_page src page_number False False = Inl IndexError \<longrightarrow>
      GamesMenu_show_checked_page src page_number m = (None, m))"
  by (simp add: GamesMenu_show_page_def GamesMenu_show_checked_page_def no_schedule_text_def
      except_IndexError_def)

theorem C5_no_schedule_message_witness:
  "GamesMenu_show_page no_games 4 False False (menu_at 3) =
     (None, (menu_at 3)\<lparr>message :=
        \<lparr>content = Some ''No Schedule could be found for that date and team.'',
         embed = None\<rparr>\<rparr>)
   \<and> GamesMenu_show_checked_page no_games 4 (menu_at 3) =
     (None, (menu_at 3)\<lparr>message :=
        \<lparr>content = Some ''No Schedule could be found for that date and team.'',
         embed = None\<rparr>\<rparr>)
   \<and> GamesMenu_show_checked_page three_pages 3 (menu_at 2) = (None, menu_at 2)"
proof -
  have h: "get_page no_games 4 False False = Inl NoSchedule"
    by (simp add: no_games_def)
  have i: "get_page three_pages 3 False False = Inl IndexError"
    by (simp add: three_pages_def)
  show ?thesis
    using C5_no_schedule_message [of no_games 4 False False "menu_at 3"] h
      C5_no_schedule_message [of three_pages 3 False False "menu_at 2"] i
    by simp
qed

subsection \<open>C6: retrying on 429\<close>

text \<open>
  Claim C6. A pass of \<open>get_response\<close> that receives status 429 (its credential check and
  header assembly not raising, the rate-limit headers readable) continues as a whole new
  call of \<open>get_response\<close> with the same URL, after one request issued and the line
  "Trying again" logged. Whatever \<open>get_response\<close> returns is the body of an answer whose
  status is not 429. The number of passes has no bound: for every \<open>n\<close>, after \<open>n\<close>
  answers 429 and one answer 200 the call has issued \<open>n + 1\<close> requests and returns the
  body of the last.
\<close>

theorem C6_retry_on_429:
  "(fst (oauth_check net st) = None
      \<and> get_header net (snd (oauth_check net st)) = Inr hdr
      \<and> reply net = Inr resp \<and> status resp = 429
      \<and> ratelimit_remaining resp \<noteq> Malformed \<and> ratelimit_reset resp \<noteq> Malformed \<longrightarrow>
      (\<exists>st1. get_response first url (net # later) st = get_response first url later st1
         \<and> (\<exists>t. issued st1 = issued st @ [(t, url, hdr)])
         \<and> api_log st1 = api_log st @ [Info ''Trying again'']))
   \<and> (get_response first url nets st = (Returned data, st') \<longrightarrow>
      (\<exists>net \<in> set nets. \<exists>resp. reply net = Inr resp \<and> status resp \<noteq> 429
         \<and> body resp = Inr data))
   \<and> get_response first url (replicate n limited @ [served]) fresh_client =
       (Returned (JDict [(''data'', JList [])]),
        fresh_client\<lparr>issued := replicate (Suc n) (1600000000, url, [(''Client-ID'', ''abc'')]),
           api_log := replicate n (Info ''Trying again'')\<rparr>)"
proof (intro conjI impI)
  assume "fst (oauth_check net st) = None
      \<and> get_header net (snd (oauth_check net st)) = Inr hdr
      \<and> reply net = Inr resp \<and> status resp = 429
      \<and> ratelimit_remaining resp \<noteq> Malformed \<and> ratelimit_reset resp \<noteq> Malformed"
  then show "\<exists>st1. get_response first url (net # later) st = get_response first url later st1
         \<and> (\<exists>t. issued st1 = issued st @ [(t, url, hdr)])
         \<and> api_log st1 = api_log st @ [Info ''Trying again'']"
    using get_response_retry [of net st hdr resp first url later] by blast
next
  assume "get_response first url nets st = (Returned data, st')"
  then show "\<exists>net \<in> set nets. \<exists>resp. reply net = Inr resp \<and> status resp \<noteq> 429
         \<and> body resp = Inr data"
    by (rule get_response_never_429)
next
  have "get_response first url (replicate n limited @ [served]) fresh_client =
     (Returned (JDict [(''data'', JList [])]),
      fresh_client\<lparr>issued := issued fresh_client
           @ replicate (Suc n) (clock fresh_client, url, [(''Client-ID'', ''abc'')]),
         api_log := api_log fresh_client @ replicate n (Info ''Trying again'')\<rparr>)"
    by (rule retry_unbounded) (simp_all add: fresh_client_def)
  then show "get_response first url (replicate n limited @ [served]) fresh_client =
       (Returned (JDict [(''data'', JList [])]),
        fresh_client\<lparr>issued := replicate (Suc n) (1600000000, url, [(''Client-ID'', ''abc'')]),
           api_log := replicate n (Info ''Trying again'')\<rparr>)"
    by (simp add: fresh_client_def)
qed

text \<open>Two answers 429, then 200: three requests, two log lines, the body of the third answer.\<close>

theorem C6_retry_on_429_witness:
  "(\<exists>st1. get_response Max ''url'' [limited, served] fresh_client =
            get_response Max ''url'' [served] st1
      \<and> (\<exists>t. issued st1 = issued fresh_client @ [(t, ''url'', [(''Client-ID'', ''abc'')])])
      \<and> api_log st1 = api_log fresh_client @ [Info ''Trying again''])
   \<and> get_response Max ''url'' [limited, limited, served] fresh_client =
       (Returned (JDict [(''data'', JList [])]),
        fresh_client\<lparr>issued := [(1600000000, ''url'', [(''Client-ID'', ''abc'')]),
                                (1600000000, ''url'', [(''Client-ID'', ''abc'')]),
                                (1600000000, ''url'', [(''Client-ID'', ''abc'')])],
           api_log := [Info ''Trying again'', Info ''Trying again'']\<rparr>)
   \<and> (\<exists>net \<in> set [limited, limited, served]. \<exists>resp. reply net = Inr resp
         \<and> status resp \<noteq> 429 \<and> body resp = Inr (JDict [(''data'', JList [])]))"
proof -
  have o: "fst (oauth_check limited fresh_client) = None"
    "snd (oauth_check limited fresh_client) = fresh_client"
    by (simp_all add: oauth_check_no_secret limited_def)
  have h: "get_header limited fresh_client = Inr [(''Client-ID'', ''abc'')]"
    by (simp add: get_header_def limited_def fresh_client_def)
  have r: "reply limited = Inr \<lparr>status = 429, ratelimit_remaining = Absent,
      ratelimit_reset = Absent, body = Inr (JDict [(''error'', JString ''Too Many Requests'')])\<rparr>"
    by (simp add: limited_def)
  have two: "replicate (Suc (Suc 0)) limited @ [served] = [limited, limited, served]"
    by simp
  have a: "\<exists>st1. get_response Max ''url'' [limited, served] fresh_client =
            get_response Max ''url'' [served] st1
      \<and> (\<exists>t. issued st1 = issued fresh_client @ [(t, ''url'', [(''Client-ID'', ''abc'')])])
      \<and> api_log st1 = api_log fresh_client @ [Info ''Trying again'']"
    using C6_retry_on_429 [of limited fresh_client "[(''Client-ID'', ''abc'')]"
        "\<lparr>status = 429, ratelimit_remaining = Absent, ratelimit_reset = Absent,
          body = Inr (JDict [(''error'', JString ''Too Many Requests'')])\<rparr>"
        Max "''url''" "[served]"] o h r
    by simp
  have b: "get_response Max ''url'' [limited, limited, served] fresh_client =
       (Returned (JDict [(''data'', JList [])]),
        fresh_client\<lparr>issued := [(1600000000, ''url'', [(''Client-ID'', ''abc'')]),
                                (1600000000, ''url'', [(''Client-ID'', ''abc'')]),
                                (1600000000, ''url'', [(''Client-ID'', ''abc'')])],
           api_log := [Info ''Trying again'', Info ''Trying again'']\<rparr>)"
    using C6_retry_on_429 [where first = Max and url = "''url''" and n = "Suc (Suc 0)"]
    unfolding two by simp
  have c: "\<exists>net \<in> set [limited, limited, served]. \<exists>resp. reply net = Inr resp
         \<and> status resp \<noteq> 429 \<and> body resp = Inr (JDict [(''data'', JList [])])"
    using C6_retry_on_429 [where first = Max and url = "''url''"
        and nets = "[limited, limited, served]" and st = fresh_client
        and data = "JDict [(''data'', JList [])]"] b
    by blast
  show ?thesis
    using a b c by blast
qed

subsection \<open>C7: controls hidden by the page count\<close>

text \<open>
  Claim C7, as amended. In a \<open>BaseMenu\<close> session, with a page count \<open>n\<close> the
  "previous" and "next" controls are shown exactly when \<open>n\<close> is not 1 and the "first" and
  "last" controls exactly when \<open>n\<close> is more than 2; with no page count known only "stop"
  is shown. In a \<open>GamesMenu\<close> session the "first" and "last" controls are shown whatever
  the page count: the class has no predicate for them and attaches none.
\<close>

theorem C7_hidden_controls:
  "(get_max_pages src = Some n \<longrightarrow>
      (PreviousPage \<in> set (visible_controls BaseMenu_buttons src) \<longleftrightarrow> n \<noteq> 1)
      \<and> (NextPage \<in> set (visible_controls BaseMenu_buttons src) \<longleftrightarrow> n \<noteq> 1)
      \<and> (FirstPage \<in> set (visible_controls BaseMenu_buttons src) \<longleftrightarrow> 2 < n)
      \<and> (LastPage \<in> set (visible_controls BaseMenu_buttons src) \<longleftrightarrow> 2 < n))
   \<and> (get_max_pages src = None \<longrightarrow> visible_controls BaseMenu_buttons src = [StopPages])
   \<and> FirstPage \<in> set (visible_controls GamesMenu_buttons src)
   \<and> LastPage \<in> set (visible_controls GamesMenu_buttons src)"
  by (auto simp: visible_controls_def BaseMenu_buttons_def GamesMenu_buttons_def shown_def
      BaseMenu_skip_single_arrows_def BaseMenu_skip_double_triangle_buttons_def)

text \<open>One page: a \<open>BaseMenu\<close> shows only "stop". Three pages: it shows all five controls.\<close>

theorem C7_hidden_controls_witness:
  "visible_controls BaseMenu_buttons one_page = [StopPages]
   \<and> visible_controls BaseMenu_buttons three_pages =
       [PreviousPage, NextPage, FirstPage, LastPage, StopPages]
   \<and> visible_controls BaseMenu_buttons (three_pages\<lparr>get_max_pages := None\<rparr>) = [StopPages]"
proof -
  have one: "get_max_pages one_page = Some 1"
    by (simp add: one_page_def)
  have three: "get_max_pages three_pages = Some 3"
    by (simp add: three_pages_def)
  have unknown: "get_max_pages (three_pages\<lparr>get_max_pages := None\<rparr>) = None"
    by simp
  have stop: "StopPages \<in> set (visible_controls BaseMenu_buttons src)" for src :: "string page_source"
    by (simp add: visible_controls_def BaseMenu_buttons_def shown_def)
  have sub: "visible_controls BaseMenu_buttons src =
               filter (\<lambda>c. c \<in> set (visible_controls BaseMenu_buttons src))
                 [PreviousPage, NextPage, FirstPage, LastPage, StopPages]"
    for src :: "string page_source"
    by (simp add: visible_controls_def BaseMenu_buttons_def)
  have a: "visible_controls BaseMenu_buttons one_page = [StopPages]"
    using sub [of one_page] stop [of one_page] C7_hidden_controls [of one_page 1] one
    by simp
  have b: "visible_controls BaseMenu_buttons three_pages =
       [PreviousPage, NextPage, FirstPage, LastPage, StopPages]"
    using sub [of three_pages] stop [of three_pages] C7_hidden_controls [of three_pages 3] three
    by simp
  have c: "visible_controls BaseMenu_buttons (three_pages\<lparr>get_max_pages := None\<rparr>) = [StopPages]"
    using C7_hidden_controls [of "three_pages\<lparr>get_max_pages := None\<rparr>"] unknown
    by simp
  show ?thesis
    using a b c by simp
qed

text \<open>
  Claim C7 as stated fails in a \<open>GamesMenu\<close> session whose source reports one page: the
  "first" and "last" jump controls are shown, as is every control of the class.
\<close>

theorem C7_games_menu_shows_jumps:
  "get_max_pages one_page = Some 1
   \<and> FirstPage \<in> set (visible_controls GamesMenu_buttons one_page)
   \<and> LastPage \<in> set (visible_controls GamesMenu_buttons one_page)
   \<and> visible_controls GamesMenu_buttons one_page =
       [PreviousPage, NextPage, FirstPage, LastPage, StopPages, ChooseDate]"
  by (simp add: one_page_def visible_controls_def GamesMenu_buttons_def shown_def)

subsection \<open>C8: exceptions of a control's handler\<close>

text \<open>
  Claim C8. For an activation of a control of the session, \<open>update\<close> (of either menu
  class) raises nothing, whatever the handler does. When the session is running and the
  handler raises, \<open>update\<close> returns with the state the handler had reached and one more
  debug line "Ignored exception on reaction event" carrying the exception; the session runs
  on exactly if the handler itself had not stopped it.
\<close>

theorem C8_update_suppresses:
  assumes "buttons emoji = Some b"
  shows "fst (BaseMenu_update buttons emoji m) = None
         \<and> fst (GamesMenu_update buttons emoji m) = None
         \<and> (running m \<and> action b m = (Some exc, m') \<longrightarrow>
            BaseMenu_update buttons emoji m =
              (None, m'\<lparr>menu_log := menu_log m' @ [Debug ''Ignored exception on reaction event'' exc]\<rparr>)
            \<and> GamesMenu_update buttons emoji m =
              (None, m'\<lparr>menu_log := menu_log m' @ [Debug ''Ignored exception on reaction event'' exc]\<rparr>)
            \<and> running (snd (BaseMenu_update buttons emoji m)) = running m'
            \<and> running (snd (GamesMenu_update buttons emoji m)) = running m')"
  using assms
  by (auto simp add: BaseMenu_update_def GamesMenu_update_def ignored_def
      split: prod.splits option.splits)

text \<open>
  The "next" control on a source whose formatting raises \<open>KeyError\<close>: the index has
  moved, the exception is logged, and the session is still running.
\<close>

theorem C8_update_suppresses_witness:
  "BaseMenu_update next_only ''next'' (menu_at 0) =
     (None, (menu_at 0)\<lparr>current_page := 1,
        menu_log := [Debug ''Ignored exception on reaction event'' KeyError]\<rparr>)
   \<and> GamesMenu_update next_only ''next'' (menu_at 0) =
     (None, (menu_at 0)\<lparr>current_page := 1,
        menu_log := [Debug ''Ignored exception on reaction event'' KeyError]\<rparr>)
   \<and> running (snd (BaseMenu_update next_only ''next'' (menu_at 0)))
   \<and> running (snd (GamesMenu_update next_only ''next'' (menu_at 0)))"
proof -
  have b: "next_only ''next'' =
             Some \<lparr>lock = True, action = BaseMenu_go_to_next_page failing_format\<rparr>"
    by (simp add: next_only_def)
  have r: "running (menu_at 0)"
    by (simp add: menu_at_def)
  have a: "action \<lparr>lock = True, action = BaseMenu_go_to_next_page failing_format\<rparr> (menu_at 0) =
             (Some KeyError, (menu_at 0)\<lparr>current_page := 1\<rparr>)"
    by (simp add: BaseMenu_go_to_next_page_def BaseMenu_show_checked_page_def
        MenuPages_show_page_def failing_format_def menu_at_def except_IndexError_def)
  show ?thesis
    using C8_update_suppresses [where buttons = next_only and emoji = "''next''"
        and b = "\<lparr>lock = True, action = BaseMenu_go_to_next_page failing_format\<rparr>"
        and m = "menu_at 0" and exc = KeyError and m' = "(menu_at 0)\<lparr>current_page := 1\<rparr>",
        OF b] r a
    by (simp add: menu_at_def)
qed

subsection \<open>C9: the time window of a clip request\<close>

text \<open>
  Claim C9, as amended. When a start timestamp is supplied, the URL that
  \<open>get_new_clips\<close> requests carries \<open>started_at\<close> with that timestamp and \<open>ended_at\<close>
  with the current time, so the window is bounded on both sides; when none is supplied, the
  URL is the clips path with the broadcaster alone and carries no time window at all. The
  request \<open>get_new_clips\<close> issues first is a GET of that URL.
\<close>

theorem C9_clip_window:
  "get_new_clips_url user_id (Some start) utcnow =
     BASE_URL @ ''/clips?broadcaster_id='' @ user_id @ ''&started_at='' @ start @ ''Z''
       @ ''&ended_at='' @ utcnow @ ''Z''
   \<and> get_new_clips_url user_id None utcnow = BASE_URL @ ''/clips?broadcaster_id='' @ user_id
   \<and> (fst (oauth_check net st) = None
       \<and> get_header net (snd (oauth_check net st)) = Inr hdr \<longrightarrow>
       (\<exists>t more. issued (snd (get_new_clips first user_id started_at utcnow (net # later) st)) =
          issued st @ (t, get_new_clips_url user_id started_at utcnow, hdr) # more))"
proof (intro conjI impI)
  assume a: "fst (oauth_check net st) = None
       \<and> get_header net (snd (oauth_check net st)) = Inr hdr"
  have o: "oauth_check net st = (None, snd (oauth_check net st))"
    using a by (simp add: prod_eq_iff)
  show "\<exists>t more. issued (snd (get_new_clips first user_id started_at utcnow (net # later) st)) =
          issued st @ (t, get_new_clips_url user_id started_at utcnow, hdr) # more"
    unfolding get_new_clips_state
    using get_response_first_request [OF o, of hdr first
        "get_new_clips_url user_id started_at utcnow" later] a
    by blast
qed (simp_all add: get_new_clips_url_def)

text \<open>
  A call with a start timestamp, answered at once: the one request issued carries both
  bounds.
\<close>

theorem C9_clip_window_witness:
  "\<exists>t more. issued (snd (get_new_clips Max ''1234'' (Some ''2020-09-05T12:26:40'')
                            ''2020-09-13T12:26:40'' [served] fresh_client)) =
     issued fresh_client @
       (t, ''https://api.twitch.tv/helix/clips?broadcaster_id=1234'' @
           ''&started_at=2020-09-05T12:26:40Z&ended_at=2020-09-13T12:26:40Z'',
        [(''Client-ID'', ''abc'')]) # more"
proof -
  have pre: "fst (oauth_check served fresh_client) = None
      \<and> get_header served (snd (oauth_check served fresh_client)) = Inr [(''Client-ID'', ''abc'')]"
    by (simp add: oauth_check_no_secret served_def get_header_def fresh_client_def)
  have url: "get_new_clips_url ''1234'' (Some ''2020-09-05T12:26:40'') ''2020-09-13T12:26:40'' =
      ''https://api.twitch.tv/helix/clips?broadcaster_id=1234'' @
        ''&started_at=2020-09-05T12:26:40Z&ended_at=2020-09-13T12:26:40Z''"
    by (simp add: get_new_clips_url_def BASE_URL_def)
  have "\<exists>t more. issued (snd (get_new_clips Max ''1234'' (Some ''2020-09-05T12:26:40'')
                            ''2020-09-13T12:26:40'' [served] fresh_client)) =
     issued fresh_client @
       (t, get_new_clips_url ''1234'' (Some ''2020-09-05T12:26:40'') ''2020-09-13T12:26:40'',
        [(''Client-ID'', ''abc'')]) # more"
    using C9_clip_window [where net = served and st = fresh_client
        and hdr = "[(''Client-ID'', ''abc'')]" and first = Max and user_id = "''1234''"
        and started_at = "Some ''2020-09-05T12:26:40''" and utcnow = "''2020-09-13T12:26:40''"
        and later = "[]"] pre
    by blast
  then show ?thesis
    unfolding url .
qed

text \<open>
  Claim C9 as stated fails for a call without a start timestamp: the URL requested has no
  \<open>ended_at\<close>, so nothing bounds the window by the current time.
\<close>

theorem C9_no_upper_bound_without_start:
  "get_new_clips_url ''1234'' None ''2020-09-13T12:26:40'' =
     ''https://api.twitch.tv/helix/clips?broadcaster_id=1234''
   \<and> \<not> occurs_in ''ended_at'' (get_new_clips_url ''1234'' None ''2020-09-13T12:26:40'')
   \<and> occurs_in ''ended_at''
       (get_new_clips_url ''1234'' (Some ''2020-09-05T12:26:40'') ''2020-09-13T12:26:40'')"
  by (simp add: get_new_clips_url_def BASE_URL_def)

subsection \<open>C10: the page index when no schedule is found\<close>

text \<open>
  Claim C10. When the page source answers \<open>show_page\<close> with the no-schedule signal, the
  session is as before except for the displayed message, which is the error text: the
  current page index is unchanged. When the fetch succeeds the index is the requested page
  number afterwards; and whenever \<open>show_page\<close> has changed the index, the fetch had
  succeeded and the index is the requested page number.
\<close>

theorem C10_index_frame:
  "(get_page src n skip_next skip_prev = Inl NoSchedule \<longrightarrow>
      snd (GamesMenu_show_page src n skip_next skip_prev m) =
        m\<lparr>message := \<lparr>content = Some no_schedule_text, embed = None\<rparr>\<rparr>
      \<and> current_page (snd (GamesMenu_show_page src n skip_next skip_prev m)) = current_page m)
   \<and> (get_page src n skip_next skip_prev = Inr page \<longrightarrow>
      current_page (snd (GamesMenu_show_page src n skip_next skip_prev m)) = n)
   \<and> (current_page (snd (GamesMenu_show_page src n skip_next skip_prev m)) \<noteq> current_page m \<longrightarrow>
      (\<exists>p. get_page src n skip_next skip_prev = Inr p)
      \<and> current_page (snd (GamesMenu_show_page src n skip_next skip_prev m)) = n)"
  by (auto simp: GamesMenu_show_page_def Let_def split: sum.splits)

theorem C10_index_frame_witness:
  "snd (GamesMenu_show_page no_games 4 False False (menu_at 3)) =
     (menu_at 3)\<lparr>message := \<lparr>content = Some no_schedule_text, embed = None\<rparr>\<rparr>
   \<and> current_page (snd (GamesMenu_show_page no_games 4 False False (menu_at 3))) = 3
   \<and> current_page (snd (GamesMenu_show_page three_pages 1 False False (menu_at 2))) = 1"
proof -
  have h: "get_page no_games 4 False False = Inl NoSchedule"
    by (simp add: no_games_def)
  have i: "get_page three_pages 1 False False = Inr ''page 1''"
    by (simp add: three_pages_def)
  have at: "current_page (menu_at 3) = 3"
    by (simp add: menu_at_def)
  show ?thesis
    using C10_index_frame [where src = no_games and n = 4 and skip_next = False
        and skip_prev = False and m = "menu_at 3"] h at
      C10_index_frame [where src = three_pages and n = 1 and skip_next = False
        and skip_prev = False and m = "menu_at 2" and page = "''page 1''"] i
    by simp
qed

end
